theory Spec2Isabelle
  imports Main "HOL-Library.Word"
begin

unbundle bit_operations_syntax

section \<open>The FBPT reader of u-root (package fbpt), embedded in HOL\<close>

text \<open>
  The Go package reads the Firmware Basic Performance Table out of a seekable byte
  stream. Go's fixed-width unsigned integers are words, so that every subtraction wraps
  as it does in Go; a Go string is a sequence of bytes and is shown here as a
  \<^typ>\<open>string\<close>, one character per byte.
\<close>

type_synonym byte = "8 word"
type_synonym uint16 = "16 word"
type_synonym uint32 = "32 word"
type_synonym uint64 = "64 word"

subsection \<open>Errors\<close>

text \<open>
  \<open>EOF\<close> and \<open>ErrUnexpectedEOF\<close> are the two errors of \<open>io.ReadFull\<close>;
  \<open>ErrInvalidSeek\<close> is the failure of a seek to a position that is negative or does not
  fit an \<open>int64\<close>; \<open>ErrOpen\<close> is a failed \<open>os.OpenFile\<close>; \<open>ErrorString\<close> is an
  error made by \<open>errors.New\<close> and carries its message.
\<close>

datatype error = EOF | ErrUnexpectedEOF | ErrInvalidSeek | ErrOpen | ErrorString string

subsection \<open>The byte source (io.ReadSeeker)\<close>

text \<open>
  A read-only stream: its bytes and the offset of the read cursor. Seeking past the end
  is allowed, as for a file; the read that follows fails.
\<close>

record ByteSource =
  bytes :: "byte list"
  offset :: nat

datatype whence = SeekStart | SeekCurrent

definition Seek :: "ByteSource \<Rightarrow> int \<Rightarrow> whence \<Rightarrow> error + ByteSource" where
  "Seek mem off w =
     (let target = (case w of SeekStart \<Rightarrow> off | SeekCurrent \<Rightarrow> int (offset mem) + off)
      in if target < 0 \<or> 2 ^ 63 \<le> target then Inl ErrInvalidSeek
         else Inr (mem\<lparr>offset := nat target\<rparr>))"

text \<open>
  \<open>io.ReadFull(mem, buf)\<close> with \<open>len(buf) = n\<close>: exactly \<open>n\<close> bytes or an error.
  A buffer of length 0 reads nothing and succeeds. With no byte left the error is
  \<open>EOF\<close>, with some but fewer than \<open>n\<close> it is \<open>ErrUnexpectedEOF\<close>.
\<close>

definition ReadFull :: "ByteSource \<Rightarrow> nat \<Rightarrow> error + (byte list \<times> ByteSource)" where
  "ReadFull mem n =
     (if n = 0 then Inr ([], mem)
      else if offset mem + n \<le> length (bytes mem)
        then Inr (take n (drop (offset mem) (bytes mem)), mem\<lparr>offset := offset mem + n\<rparr>)
      else if length (bytes mem) \<le> offset mem then Inl EOF
      else Inl ErrUnexpectedEOF)"

subsection \<open>Little-endian fields and strings\<close>

text \<open>\<open>binary.LittleEndian.Uint16\<close>, \<open>Uint32\<close> and \<open>Uint64\<close> on a slice of the right length.\<close>

fun Uint16 :: "byte list \<Rightarrow> uint16" where
  "Uint16 (b0 # b1 # _) = ucast b0 OR push_bit 8 (ucast b1)"
| "Uint16 _ = 0"

fun Uint32 :: "byte list \<Rightarrow> uint32" where
  "Uint32 (b0 # b1 # b2 # b3 # _) =
     ucast b0 OR push_bit 8 (ucast b1) OR push_bit 16 (ucast b2) OR push_bit 24 (ucast b3)"
| "Uint32 _ = 0"

fun Uint64 :: "byte list \<Rightarrow> uint64" where
  "Uint64 (b0 # b1 # b2 # b3 # b4 # b5 # b6 # b7 # _) =
     ucast b0 OR push_bit 8 (ucast b1) OR push_bit 16 (ucast b2) OR push_bit 24 (ucast b3)
     OR push_bit 32 (ucast b4) OR push_bit 40 (ucast b5) OR push_bit 48 (ucast b6)
     OR push_bit 56 (ucast b7)"
| "Uint64 _ = 0"

text \<open>The conversions \<open>string(b)\<close> and \<open>[]byte(s)\<close>.\<close>

definition string_of_bytes :: "byte list \<Rightarrow> string" where
  "string_of_bytes bs = map (\<lambda>b. char_of (unat b)) bs"

definition bytes_of_string :: "string \<Rightarrow> byte list" where
  "bytes_of_string s = map (\<lambda>c. of_nat (of_char c)) s"

subsection \<open>Constants and the hook-type table\<close>

definition FBPTStructureSig :: string where
  "FBPTStructureSig = ''FBPT''"

definition EFI_ACPI_5_0_FPDT_PERFORMANCE_RECORD_HEADER_SIZE :: nat where
  "EFI_ACPI_5_0_FPDT_PERFORMANCE_RECORD_HEADER_SIZE = 4"

definition EFI_ACPI_5_0_FBPT_HEADER_SIZE :: nat where
  "EFI_ACPI_5_0_FBPT_HEADER_SIZE = 8"

definition maxNumberOfFBPTPerfRecords :: nat where
  "maxNumberOfFBPTPerfRecords = 2000"

definition FPDT_DYNAMIC_STRING_EVENT_RECORD_IDENTIFIER :: uint16 where
  "FPDT_DYNAMIC_STRING_EVENT_RECORD_IDENTIFIER = 0x1011"

text \<open>The entries of \<open>eventTypeMap\<close>, in the order of the source.\<close>

definition eventTypeTable :: "(uint16 \<times> string) list" where
  "eventTypeTable =
    [(0x01, ''MODULE_START_ID''),
     (0x02, ''MODULE_END_ID''),
     (0x03, ''MODULE_LOADIMAGE_START_ID''),
     (0x04, ''MODULE_LOADIMAGE_END_ID''),
     (0x05, ''MODULE_DB_START_ID''),
     (0x06, ''MODULE_DB_END_ID''),
     (0x07, ''MODULE_DB_SUPPORT_START_ID''),
     (0x08, ''MODULE_DB_SUPPORT_END_ID''),
     (0x09, ''MODULE_DB_STOP_START_ID''),
     (0x0A, ''MODULE_DB_STOP_END_ID''),
     (0x10, ''PERF_EVENTSIGNAL_START_ID''),
     (0x11, ''PERF_EVENTSIGNAL_END_ID''),
     (0x20, ''PERF_CALLBACK_START_ID''),
     (0x21, ''PERF_CALLBACK_END_ID''),
     (0x30, ''PERF_FUNCTION_START_ID''),
     (0x31, ''PERF_FUNCTION_END_ID''),
     (0x40, ''PERF_INMODULE_START_ID''),
     (0x41, ''PERF_INMODULE_END_ID''),
     (0x50, ''PERF_CROSSMODULE_START_ID''),
     (0x51, ''PERF_CROSSMODULE_END_ID'')]"

definition eventTypeMap :: "uint16 \<rightharpoonup> string" where
  "eventTypeMap = map_of eventTypeTable"

text \<open>The Go index expression \<open>eventTypeMap[k]\<close>: the zero value \<open>""\<close> for a missing key.\<close>

definition eventTypeMap_index :: "uint16 \<Rightarrow> string" where
  "eventTypeMap_index k = (case eventTypeMap k of None \<Rightarrow> [] | Some name \<Rightarrow> name)"

subsection \<open>Records\<close>

record EFI_ACPI_5_0_FPDT_PERFORMANCE_RECORD_HEADER =
  Type :: uint16
  Length :: byte
  Revision :: byte

text \<open>\<open>GUID\<close> is a \<open>uefivars.MixedGUID\<close>, an array of 16 bytes.\<close>

record MEASUREMENT_RECORD =
  HookType :: string
  ProcessorIdentifier :: uint32
  Timestamp :: uint64
  GUID :: "byte list"
  Description :: string

text \<open>The zero value of the struct, as \<open>make\<close> fills a fresh slice with.\<close>

definition zero_MEASUREMENT_RECORD :: MEASUREMENT_RECORD where
  "zero_MEASUREMENT_RECORD =
     \<lparr>HookType = [], ProcessorIdentifier = 0, Timestamp = 0,
      GUID = replicate 16 0, Description = []\<rparr>"

subsection \<open>verifyFBPTSignature\<close>

definition verifyFBPTSignature :: "ByteSource \<Rightarrow> uint64 \<Rightarrow> error + (uint32 \<times> ByteSource)" where
  "verifyFBPTSignature mem fbptAddr =
     (case Seek mem (sint fbptAddr) SeekStart of
        Inl err \<Rightarrow> Inl err
      | Inr m0 \<Rightarrow>
     (case ReadFull m0 4 of
        Inl err \<Rightarrow> Inl err
      | Inr (fbptSig, m1) \<Rightarrow>
          if string_of_bytes fbptSig \<noteq> FBPTStructureSig
          then Inl (ErrorString
                 (''FBPT structure signature check failed. Expected: FBPT, Got: ''
                    @ string_of_bytes fbptSig))
          else
     (case ReadFull m1 4 of
        Inl err \<Rightarrow> Inl err
      | Inr (fbptLength, m2) \<Rightarrow> Inr (Uint32 fbptLength, m2))))"

subsection \<open>The record header reader\<close>

text \<open>
  Modelled from the spec: \<open>fpdt.ReadFPDTRecordHeader\<close> belongs to package \<open>fpdt\<close>,
  whose source is not part of the files at hand. The specification has it read 2 bytes
  (type, little-endian), 1 byte (length) and 1 byte (revision) from the current cursor
  position and return the triple, with no validation of the type code.
\<close>

definition ReadFPDTRecordHeader :: "ByteSource \<Rightarrow> error + ((uint16 \<times> byte \<times> byte) \<times> ByteSource)" where
  "ReadFPDTRecordHeader mem =
     (case ReadFull mem 2 of
        Inl err \<Rightarrow> Inl err
      | Inr (t, m1) \<Rightarrow>
     (case ReadFull m1 1 of
        Inl err \<Rightarrow> Inl err
      | Inr (l, m2) \<Rightarrow>
     (case ReadFull m2 1 of
        Inl err \<Rightarrow> Inl err
      | Inr (r, m3) \<Rightarrow> Inr ((Uint16 t, hd l, hd r), m3))))"

subsection \<open>readFirmwarePerformanceDataTableDynamicRecord\<close>

text \<open>
  The length of the description is \<open>recordLength - 34\<close> computed in \<open>uint8\<close>: it wraps
  for a record length below 34.
\<close>

definition readFirmwarePerformanceDataTableDynamicRecord ::
    "ByteSource \<Rightarrow> byte \<Rightarrow> error + (MEASUREMENT_RECORD \<times> ByteSource)" where
  "readFirmwarePerformanceDataTableDynamicRecord mem recordLength =
     (case ReadFull mem 2 of
        Inl err \<Rightarrow> Inl err
      | Inr (hookType, m1) \<Rightarrow>
     (case ReadFull m1 4 of
        Inl err \<Rightarrow> Inl err
      | Inr (processorIdentifier, m2) \<Rightarrow>
     (case ReadFull m2 8 of
        Inl err \<Rightarrow> Inl err
      | Inr (timestamp, m3) \<Rightarrow>
     (case ReadFull m3 16 of
        Inl err \<Rightarrow> Inl err
      | Inr (guid, m4) \<Rightarrow>
     (case ReadFull m4 (unat (recordLength - 34)) of
        Inl err \<Rightarrow> Inl err
      | Inr (str, m5) \<Rightarrow>
          Inr (\<lparr>HookType = eventTypeMap_index (Uint16 hookType),
                ProcessorIdentifier = Uint32 processorIdentifier,
                Timestamp = Uint64 timestamp,
                GUID = guid,
                Description = string_of_bytes str\<rparr>, m5))))))"

subsection \<open>FindAllFBPTRecords\<close>

text \<open>The variables of the loop: the open file and the locals of the function.\<close>

record scan_state =
  memFile :: ByteSource
  measurementRecords :: "MEASUREMENT_RECORD list"
  index :: nat
  tableBytesRead :: uint32
  HeaderInfo :: EFI_ACPI_5_0_FPDT_PERFORMANCE_RECORD_HEADER

text \<open>
  The locals as the loop finds them: the slice made of 2000 zero records, the other
  variables zero.
\<close>

definition scan_init :: "ByteSource \<Rightarrow> scan_state" where
  "scan_init f1 =
     \<lparr>memFile = f1,
      measurementRecords = replicate maxNumberOfFBPTPerfRecords zero_MEASUREMENT_RECORD,
      index = 0,
      tableBytesRead = 0,
      HeaderInfo = \<lparr>Type = 0, Length = 0, Revision = 0\<rparr>\<rparr>"

text \<open>The loop condition; \<open>tablelength - 8\<close> is a \<open>uint32\<close> subtraction.\<close>

definition scan_cond :: "uint32 \<Rightarrow> scan_state \<Rightarrow> bool" where
  "scan_cond tablelength s \<longleftrightarrow>
     tableBytesRead s < tablelength - of_nat EFI_ACPI_5_0_FBPT_HEADER_SIZE
     \<and> index s < maxNumberOfFBPTPerfRecords"

text \<open>
  One pass through the body of the loop. The skip distance \<open>Length - 4\<close> is a \<open>uint8\<close>
  subtraction, converted to \<open>int64\<close> afterwards, so it is never negative.
\<close>

definition scan_body :: "scan_state \<Rightarrow> error + scan_state" where
  "scan_body s =
     (case ReadFPDTRecordHeader (memFile s) of
        Inl err \<Rightarrow> Inl err
      | Inr ((t, l, r), m1) \<Rightarrow>
          let h = (HeaderInfo s)\<lparr>Type := t, Length := l\<rparr> in
          if Type h = FPDT_DYNAMIC_STRING_EVENT_RECORD_IDENTIFIER then
            (case readFirmwarePerformanceDataTableDynamicRecord m1 (Length h) of
               Inl err \<Rightarrow> Inl err
             | Inr (rec, m2) \<Rightarrow>
                 Inr (s\<lparr>memFile := m2,
                        measurementRecords := (measurementRecords s)[index s := rec],
                        index := index s + 1,
                        tableBytesRead := tableBytesRead s + ucast (Length h),
                        HeaderInfo := h\<rparr>))
          else
            (case Seek m1 (uint (Length h
                      - of_nat EFI_ACPI_5_0_FPDT_PERFORMANCE_RECORD_HEADER_SIZE)) SeekCurrent of
               Inl err \<Rightarrow> Inl err
             | Inr m2 \<Rightarrow>
                 Inr (s\<lparr>memFile := m2,
                        tableBytesRead := tableBytesRead s + ucast (Length h),
                        HeaderInfo := h\<rparr>)))"

lemma ReadFull_progress:
  assumes "ReadFull mem n = Inr (bs, mem')"
  shows "bytes mem' = bytes mem" and "offset mem' = offset mem + n"
    and "length bs = n" and "n = 0 \<or> offset mem + n \<le> length (bytes mem)"
  using assms by (auto simp: ReadFull_def split: if_splits)

lemma Seek_current_progress:
  assumes "Seek mem off SeekCurrent = Inr mem'" and "0 \<le> off"
  shows "bytes mem' = bytes mem" and "offset mem \<le> offset mem'"
  using assms by (auto simp: Seek_def Let_def split: if_splits)

lemma ReadFPDTRecordHeader_progress:
  assumes "ReadFPDTRecordHeader mem = Inr (h, mem')"
  shows "bytes mem' = bytes mem" and "offset mem' = offset mem + 4"
    and "offset mem + 4 \<le> length (bytes mem)"
proof -
  from assms obtain t m1 l m2 r where
    r1: "ReadFull mem 2 = Inr (t, m1)" and r2: "ReadFull m1 1 = Inr (l, m2)"
    and r3: "ReadFull m2 1 = Inr (r, mem')"
    by (auto simp: ReadFPDTRecordHeader_def split: sum.splits)
  from ReadFull_progress [OF r1] ReadFull_progress [OF r2] ReadFull_progress [OF r3]
  show "bytes mem' = bytes mem" and "offset mem' = offset mem + 4"
    and "offset mem + 4 \<le> length (bytes mem)"
    by auto
qed

lemma readDynamicRecord_progress:
  assumes "readFirmwarePerformanceDataTableDynamicRecord mem l = Inr (rec, mem')"
  shows "bytes mem' = bytes mem" and "offset mem \<le> offset mem'"
proof -
  from assms obtain a m1 b m2 c m3 d m4 e where
    r1: "ReadFull mem 2 = Inr (a, m1)" and r2: "ReadFull m1 4 = Inr (b, m2)"
    and r3: "ReadFull m2 8 = Inr (c, m3)" and r4: "ReadFull m3 16 = Inr (d, m4)"
    and r5: "ReadFull m4 (unat (l - 34)) = Inr (e, mem')"
    by (auto simp: readFirmwarePerformanceDataTableDynamicRecord_def split: sum.splits)
  from ReadFull_progress(1,2) [OF r1] ReadFull_progress(1,2) [OF r2]
    ReadFull_progress(1,2) [OF r3] ReadFull_progress(1,2) [OF r4]
    ReadFull_progress(1,2) [OF r5]
  show "bytes mem' = bytes mem" and "offset mem \<le> offset mem'"
    by auto
qed

lemma scan_body_progress:
  assumes "scan_body s = Inr s'"
  shows "bytes (memFile s') = bytes (memFile s)"
    and "offset (memFile s) + 4 \<le> offset (memFile s')"
    and "offset (memFile s) + 4 \<le> length (bytes (memFile s))"
proof -
  from assms obtain t l r m1 where
    h: "ReadFPDTRecordHeader (memFile s) = Inr ((t, l, r), m1)"
    by (auto simp: scan_body_def split: sum.splits)
  note hp = ReadFPDTRecordHeader_progress [OF h]
  have "bytes (memFile s') = bytes m1 \<and> offset m1 \<le> offset (memFile s')"
  proof (cases "t = FPDT_DYNAMIC_STRING_EVENT_RECORD_IDENTIFIER")
    case True
    with assms h obtain rec m2 where
      d: "readFirmwarePerformanceDataTableDynamicRecord m1 l = Inr (rec, m2)"
      and "memFile s' = m2"
      by (auto simp: scan_body_def Let_def split: sum.splits)
    with readDynamicRecord_progress [OF d] show ?thesis by simp
  next
    case False
    with assms h obtain m2 where
      k: "Seek m1 (uint (l - of_nat EFI_ACPI_5_0_FPDT_PERFORMANCE_RECORD_HEADER_SIZE))
            SeekCurrent = Inr m2"
      and "memFile s' = m2"
      by (auto simp: scan_body_def Let_def split: sum.splits)
    with Seek_current_progress [OF k] show ?thesis by simp
  qed
  with hp show "bytes (memFile s') = bytes (memFile s)"
    and "offset (memFile s) + 4 \<le> offset (memFile s')"
    and "offset (memFile s) + 4 \<le> length (bytes (memFile s))"
    by auto
qed

text \<open>
  The loop. It stops with the error of the failing pass and the value of \<open>index\<close> at
  that moment, or with the state in which the loop condition is false.
\<close>

function scan_loop :: "uint32 \<Rightarrow> scan_state \<Rightarrow> (nat \<times> error) + scan_state" where
  "scan_loop tablelength s =
     (if scan_cond tablelength s then
        (case scan_body s of
           Inl err \<Rightarrow> Inl (index s, err)
         | Inr s' \<Rightarrow> scan_loop tablelength s')
      else Inr s)"
  by pat_completeness auto
termination
proof (relation "measure (\<lambda>(tablelength, s). length (bytes (memFile s)) - offset (memFile s))")
  show "wf (measure (\<lambda>(tablelength, s). length (bytes (memFile s)) - offset (memFile s)))"
    by simp
next
  fix tablelength :: uint32 and s s' :: scan_state
  assume "scan_body s = Inr s'"
  from scan_body_progress [OF this]
  show "((tablelength, s'), (tablelength, s))
          \<in> measure (\<lambda>(tablelength, s). length (bytes (memFile s)) - offset (memFile s))"
    by simp
qed

declare scan_loop.simps [simp del]

text \<open>
  \<open>FindAllFBPTRecords\<close>. The function opens \<open>/dev/mem\<close> itself; here the outcome of
  \<open>os.OpenFile\<close> is the argument \<open>dev\<close>. The result is the triple of the source: the
  count, the slice (the \<open>nil\<close> slice is the empty list) and the error (\<open>None\<close> is \<open>nil\<close>).
\<close>

definition FindAllFBPTRecords ::
    "error + ByteSource \<Rightarrow> uint64 \<Rightarrow> nat \<times> MEASUREMENT_RECORD list \<times> error option" where
  "FindAllFBPTRecords dev FBPTAddr =
     (case dev of
        Inl err \<Rightarrow> (0, [], Some err)
      | Inr f \<Rightarrow>
     (case verifyFBPTSignature f FBPTAddr of
        Inl err \<Rightarrow> (0, [], Some err)
      | Inr (tablelength, f1) \<Rightarrow>
     (case scan_loop tablelength (scan_init f1) of
        Inl (i, err) \<Rightarrow> (i, [], Some err)
      | Inr s \<Rightarrow> (index s, measurementRecords s, None))))"

section \<open>Auxiliary definitions\<close>

subsection \<open>Tables laid out in a byte source\<close>

text \<open>
  A record of a table as it lies in memory: the type code, the declared length, the
  revision, and the bytes that follow the 4-byte header.
\<close>

record table_record =
  rtype :: uint16
  rlength :: byte
  rrevision :: byte
  rbody :: "byte list"

text \<open>
  \<open>binary.LittleEndian.PutUint16\<close> and \<open>PutUint32\<close>, as the lists of bytes they
  write.
\<close>

definition PutUint16 :: "uint16 \<Rightarrow> byte list" where
  "PutUint16 v = [ucast v, ucast (drop_bit 8 v)]"

definition PutUint32 :: "uint32 \<Rightarrow> byte list" where
  "PutUint32 v = [ucast v, ucast (drop_bit 8 v), ucast (drop_bit 16 v), ucast (drop_bit 24 v)]"

definition record_bytes :: "table_record \<Rightarrow> byte list" where
  "record_bytes r = PutUint16 (rtype r) @ [rlength r, rrevision r] @ rbody r"

definition is_dynamic :: "table_record \<Rightarrow> bool" where
  "is_dynamic r \<longleftrightarrow> rtype r = FPDT_DYNAMIC_STRING_EVENT_RECORD_IDENTIFIER"

text \<open>
  Well-formed: the declared length counts the header and the body, and is at least 4,
  at least 34 for a dynamic-string record.
\<close>

definition wf_record :: "table_record \<Rightarrow> bool" where
  "wf_record r \<longleftrightarrow>
     unat (rlength r) = 4 + length (rbody r) \<and> (if is_dynamic r then 34 else 4) \<le> unat (rlength r)"

definition declared_total :: "table_record list \<Rightarrow> nat" where
  "declared_total rs = sum_list (map (\<lambda>r. unat (rlength r)) rs)"

definition count_dynamic :: "table_record list \<Rightarrow> nat" where
  "count_dynamic rs = length (filter is_dynamic rs)"

text \<open>
  What the decoder makes of the body of a dynamic-string record, and the records it
  makes of a table.
\<close>

definition decode_body :: "byte list \<Rightarrow> MEASUREMENT_RECORD" where
  "decode_body b =
     \<lparr>HookType = eventTypeMap_index (Uint16 (take 2 b)),
      ProcessorIdentifier = Uint32 (take 4 (drop 2 b)),
      Timestamp = Uint64 (take 8 (drop 6 b)),
      GUID = take 16 (drop 14 b),
      Description = string_of_bytes (drop 30 b)\<rparr>"

definition decoded :: "table_record list \<Rightarrow> MEASUREMENT_RECORD list" where
  "decoded rs = map (\<lambda>r. decode_body (rbody r)) (filter is_dynamic rs)"

text \<open>
  The state of the loop after a pass over one well-formed record.
\<close>

definition after_record :: "scan_state \<Rightarrow> table_record \<Rightarrow> scan_state" where
  "after_record s r =
     s\<lparr>memFile := (memFile s)\<lparr>offset := offset (memFile s) + unat (rlength r)\<rparr>,
       measurementRecords :=
         (if is_dynamic r then (measurementRecords s)[index s := decode_body (rbody r)]
          else measurementRecords s),
       index := (if is_dynamic r then index s + 1 else index s),
       tableBytesRead := tableBytesRead s + ucast (rlength r),
       HeaderInfo := (HeaderInfo s)\<lparr>Type := rtype r, Length := rlength r\<rparr>\<rparr>"

text \<open>
  The table header followed by the records.
\<close>

definition table_image :: "uint32 \<Rightarrow> table_record list \<Rightarrow> byte list" where
  "table_image tablelength rs =
     bytes_of_string FBPTStructureSig @ PutUint32 tablelength @ concat (map record_bytes rs)"

subsection \<open>The passes of the loop\<close>

text \<open>
  The states the loop goes through: the state after each pass that did not fail, in
  order. The function follows the recursion of \<open>scan_loop\<close>; its length is the number
  of passes the loop makes.
\<close>

function scan_passes :: "uint32 \<Rightarrow> scan_state \<Rightarrow> scan_state list" where
  "scan_passes tablelength s =
     (if scan_cond tablelength s then
        (case scan_body s of
           Inl err \<Rightarrow> []
         | Inr s' \<Rightarrow> s' # scan_passes tablelength s')
      else [])"
  by pat_completeness auto
termination
proof (relation "measure (\<lambda>(tablelength, s). length (bytes (memFile s)) - offset (memFile s))")
  show "wf (measure (\<lambda>(tablelength, s). length (bytes (memFile s)) - offset (memFile s)))"
    by simp
next
  fix tablelength :: uint32 and s s' :: scan_state
  assume "scan_body s = Inr s'"
  from scan_body_progress [OF this]
  show "((tablelength, s'), (tablelength, s))
          \<in> measure (\<lambda>(tablelength, s). length (bytes (memFile s)) - offset (memFile s))"
    by simp
qed

declare scan_passes.simps [simp del]

text \<open>
  A pass that decoded a dynamic-string record: the header it read has type \<open>0x1011\<close>.
\<close>

definition decoded_pass :: "scan_state \<Rightarrow> bool" where
  "decoded_pass s \<longleftrightarrow> Type (HeaderInfo s) = FPDT_DYNAMIC_STRING_EVENT_RECORD_IDENTIFIER"

text \<open>
  The count that \<open>FindAllFBPTRecords\<close> returns for an outcome of the loop.
\<close>

definition result_index :: "(nat \<times> error) + scan_state \<Rightarrow> nat" where
  "result_index res = (case res of Inl (i, err) \<Rightarrow> i | Inr s \<Rightarrow> index s)"

text \<open>
  The shape of the slice: 2000 entries, and zero records from \<open>index\<close> on.
\<close>

definition slice_inv :: "scan_state \<Rightarrow> bool" where
  "slice_inv s \<longleftrightarrow>
     length (measurementRecords s) = maxNumberOfFBPTPerfRecords
     \<and> index s \<le> maxNumberOfFBPTPerfRecords
     \<and> list_all (\<lambda>r. r = zero_MEASUREMENT_RECORD) (drop (index s) (measurementRecords s))"

text \<open>
  The number of dynamic-string records a scan decodes: the passes of its loop that
  decoded one, and none when the device cannot be opened or the signature check fails.
\<close>

definition decoded_count :: "error + ByteSource \<Rightarrow> uint64 \<Rightarrow> nat" where
  "decoded_count dev FBPTAddr =
     (case dev of
        Inl err \<Rightarrow> 0
      | Inr f \<Rightarrow>
     (case verifyFBPTSignature f FBPTAddr of
        Inl err \<Rightarrow> 0
      | Inr (tablelength, f1) \<Rightarrow>
          length (filter decoded_pass (scan_passes tablelength (scan_init f1)))))"

subsection \<open>An encoder of dynamic-string records\<close>

text \<open>
  The package has no encoder. This one is written from the layout the specification
  gives for a dynamic-string record: the 2-byte little-endian hook-type code, the 4-byte
  little-endian processor identifier, the 8-byte little-endian timestamp, the 16 bytes
  of the GUID and the bytes of the description, with the declared length
  \<open>34 + length of the description\<close>. The result is the declared length and the bytes
  that follow the record header. The declared length is one byte, as the \<open>recordLength\<close>
  of the decoder is: a record whose declared length does not fit a byte has no encoding.
\<close>

definition PutUint64 :: "uint64 \<Rightarrow> byte list" where
  "PutUint64 v = [ucast v, ucast (drop_bit 8 v), ucast (drop_bit 16 v), ucast (drop_bit 24 v),
     ucast (drop_bit 32 v), ucast (drop_bit 40 v), ucast (drop_bit 48 v), ucast (drop_bit 56 v)]"

definition encode_record :: "uint16 \<Rightarrow> MEASUREMENT_RECORD \<Rightarrow> (byte \<times> byte list) option" where
  "encode_record code r =
     (if 34 + length (Description r) < 256 then
        Some (of_nat (34 + length (Description r)),
              PutUint16 code @ PutUint32 (ProcessorIdentifier r) @ PutUint64 (Timestamp r)
                @ GUID r @ bytes_of_string (Description r))
      else None)"

subsection \<open>Sample inputs\<close>

text \<open>
  A dynamic-string record with the hook type \<open>0x01\<close>, the processor identifier 7 and
  the description \<open>hi\<close>, and a record of another type.
\<close>

definition sample_dynamic :: table_record where
  "sample_dynamic =
     \<lparr>rtype = 0x1011, rlength = 36, rrevision = 1,
      rbody = [0x01, 0x00] @ [7, 0, 0, 0] @ [1, 2, 3, 4, 5, 6, 7, 8] @ replicate 16 0xAB
              @ bytes_of_string ''hi''\<rparr>"

definition sample_other :: table_record where
  "sample_other = \<lparr>rtype = 0x0002, rlength = 8, rrevision = 1, rbody = [1, 2, 3, 4]\<rparr>"

text \<open>
  A table that declares two records and is cut off in the middle of the second.
\<close>

definition truncated_source :: ByteSource where
  "truncated_source =
     \<lparr>bytes = table_image 80 [sample_dynamic] @ take 24 (record_bytes sample_dynamic),
      offset = 0\<rparr>"

text \<open>
  A table of one dynamic-string record.
\<close>

definition single_record_source :: ByteSource where
  "single_record_source = \<lparr>bytes = table_image 44 [sample_dynamic], offset = 0\<rparr>"

text \<open>
  600 zero bytes: they read as records of type 0 and declared length 0.
\<close>

definition zero_source :: ByteSource where
  "zero_source = \<lparr>bytes = replicate 600 0, offset = 0\<rparr>"

text \<open>
  The measurement record of \<open>sample_dynamic\<close>.
\<close>

definition sample_measurement :: MEASUREMENT_RECORD where
  "sample_measurement =
     \<lparr>HookType = ''MODULE_START_ID'', ProcessorIdentifier = 7,
      Timestamp = 0x0807060504030201, GUID = replicate 16 0xAB, Description = ''hi''\<rparr>"

section \<open>Lemmas\<close>

subsection \<open>Words, bytes and strings\<close>

lemma unat_byte_less: "unat (l :: byte) < 256"
  using unsigned_less [of l, where 'a = nat] by simp

lemma unat_byte32: "unat (ucast (l :: byte) :: uint32) = unat l"
  using unat_byte_less [of l] by (simp add: unsigned_ucast_eq take_bit_nat_eq_self)

lemma unat_tableBytesRead:
  "unat (a :: uint32) + unat (l :: byte) < 2 ^ 32 \<Longrightarrow> unat (a + ucast l) = unat a + unat l"
  using unat_add_lem [of a "ucast l :: uint32"] by (simp add: unat_byte32)

lemma sint_address: "n < 2 ^ 63 \<Longrightarrow> sint (of_nat n :: uint64) = int n"
  by (simp add: signed_of_nat signed_take_bit_int_eq_self)

lemma unat_tablelength_sub:
  "unat (tablelength :: uint32) = 8 + n \<Longrightarrow> unat (tablelength - 8) = n"
  by (simp add: unat_sub word_le_nat_alt)

lemma Uint16_PutUint16: "Uint16 (PutUint16 v @ rest) = v"
proof (rule bit_word_eqI)
  fix n :: nat
  assume "n < LENGTH(16)"
  then have n: "n < 16" by simp
  consider "n < 8" | "8 \<le> n" "n < 16"
    using n by linarith
  then show "bit (Uint16 (PutUint16 v @ rest)) n = bit v n"
    by cases (auto simp: PutUint16_def bit_simps)
qed

lemma Uint32_PutUint32: "Uint32 (PutUint32 v @ rest) = v"
proof (rule bit_word_eqI)
  fix n :: nat
  assume "n < LENGTH(32)"
  then have n: "n < 32" by simp
  consider "n < 8" | "8 \<le> n" "n < 16" | "16 \<le> n" "n < 24" | "24 \<le> n" "n < 32"
    using n by linarith
  then show "bit (Uint32 (PutUint32 v @ rest)) n = bit v n"
    by cases (auto simp: PutUint32_def bit_simps)
qed

lemma Uint64_PutUint64: "Uint64 (PutUint64 v @ rest) = v"
proof (rule bit_word_eqI)
  fix n :: nat
  assume "n < LENGTH(64)"
  then have n: "n < 64" by simp
  consider "n < 8" | "8 \<le> n" "n < 16" | "16 \<le> n" "n < 24" | "24 \<le> n" "n < 32"
    | "32 \<le> n" "n < 40" | "40 \<le> n" "n < 48" | "48 \<le> n" "n < 56" | "56 \<le> n" "n < 64"
    using n by linarith
  then show "bit (Uint64 (PutUint64 v @ rest)) n = bit v n"
    by cases (auto simp: PutUint64_def bit_simps)
qed

lemma length_PutUint16: "length (PutUint16 v) = 2"
  by (simp add: PutUint16_def)

lemma length_PutUint32 [simp]: "length (PutUint32 v) = 4"
  by (simp add: PutUint32_def)

lemma length_PutUint64: "length (PutUint64 v) = 8"
  by (simp add: PutUint64_def)

lemma string_of_bytes_of_string: "string_of_bytes (bytes_of_string s) = s"
  by (simp add: string_of_bytes_def bytes_of_string_def unat_of_nat map_idI)

lemma length_bytes_of_string [simp]: "length (bytes_of_string s) = length s"
  by (simp add: bytes_of_string_def)

lemma byte_of_char: "word_of_nat (of_char (char_of (unat (b :: byte)))) = b"
  using unat_byte_less [of b] by simp

lemma bytes_of_string_of_bytes: "bytes_of_string (string_of_bytes bs) = bs"
  unfolding string_of_bytes_def bytes_of_string_def map_map comp_def byte_of_char by simp

lemma string_of_bytes_eq_iff: "string_of_bytes bs = s \<longleftrightarrow> bs = bytes_of_string s"
  using bytes_of_string_of_bytes string_of_bytes_of_string by metis

subsection \<open>The hook-type table\<close>

lemma eventTypeTable_distinct: "distinct (map fst eventTypeTable)"
  by (simp add: eventTypeTable_def)

lemma eventTypeMap_index_in:
  "(c, name) \<in> set eventTypeTable \<Longrightarrow> eventTypeMap_index c = name"
  by (simp add: eventTypeMap_index_def eventTypeMap_def eventTypeTable_distinct)

lemma eventTypeMap_index_notin:
  "c \<notin> fst ` set eventTypeTable \<Longrightarrow> eventTypeMap_index c = []"
  by (simp add: eventTypeMap_index_def eventTypeMap_def map_of_eq_None_iff [THEN iffD2])

subsection \<open>Running the readers on given bytes\<close>

lemma ReadFull_ok:
  "offset mem + n \<le> length (bytes mem) \<Longrightarrow>
   ReadFull mem n = Inr (take n (drop (offset mem) (bytes mem)), mem\<lparr>offset := offset mem + n\<rparr>)"
  by (simp add: ReadFull_def)

lemma Seek_start_ok:
  "0 \<le> sint a \<Longrightarrow> Seek mem (sint (a :: uint64)) SeekStart = Inr (mem\<lparr>offset := nat (sint a)\<rparr>)"
  using sint_lt [of a] by (simp add: Seek_def)

lemma Seek_current_ok:
  "offset mem + n < 2 ^ 63 \<Longrightarrow>
   Seek mem (int n) SeekCurrent = Inr (mem\<lparr>offset := offset mem + n\<rparr>)"
proof -
  assume "offset mem + n < 2 ^ 63"
  then have "int (offset mem) + int n < 2 ^ 63"
    by (metis of_nat_add of_nat_less_numeral_power_cancel_iff)
  then show ?thesis by (simp add: Seek_def nat_add_distrib)
qed

lemma ReadFPDTRecordHeader_ok:
  assumes "offset mem + 4 \<le> length (bytes mem)"
  shows "ReadFPDTRecordHeader mem =
     Inr ((Uint16 (take 2 (drop (offset mem) (bytes mem))),
           bytes mem ! (offset mem + 2), bytes mem ! (offset mem + 3)),
          mem\<lparr>offset := offset mem + 4\<rparr>)"
  using assms
  apply (simp add: ReadFPDTRecordHeader_def ReadFull_ok hd_drop_conv_nth ac_simps)
  apply (simp add: eval_nat_numeral)
  done

lemma readDynamicRecord_ok:
  assumes "offset mem + 30 + unat (l - 34) \<le> length (bytes mem)"
  shows "readFirmwarePerformanceDataTableDynamicRecord mem l =
     Inr (\<lparr>HookType = eventTypeMap_index (Uint16 (take 2 (drop (offset mem) (bytes mem)))),
           ProcessorIdentifier = Uint32 (take 4 (drop (offset mem + 2) (bytes mem))),
           Timestamp = Uint64 (take 8 (drop (offset mem + 6) (bytes mem))),
           GUID = take 16 (drop (offset mem + 14) (bytes mem)),
           Description =
             string_of_bytes (take (unat (l - 34)) (drop (offset mem + 30) (bytes mem)))\<rparr>,
          mem\<lparr>offset := offset mem + 30 + unat (l - 34)\<rparr>)"
  using assms
  by (simp add: readFirmwarePerformanceDataTableDynamicRecord_def ReadFull_ok ac_simps)

subsection \<open>The scan of a table\<close>

lemma length_record_bytes: "wf_record r \<Longrightarrow> length (record_bytes r) = unat (rlength r)"
  by (simp add: wf_record_def record_bytes_def PutUint16_def)

lemma scan_body_record:
  assumes lay: "bytes (memFile s) = pre @ record_bytes r @ post"
    and off: "offset (memFile s) = length pre"
    and wf: "wf_record r"
    and fit: "length pre + unat (rlength r) < 2 ^ 63"
  shows "scan_body s = Inr (after_record s r)"
proof -
  have len: "unat (rlength r) = 4 + length (rbody r)"
    using wf by (simp add: wf_record_def)
  have hdr: "ReadFPDTRecordHeader (memFile s) =
      Inr ((rtype r, rlength r, rrevision r), (memFile s)\<lparr>offset := length pre + 4\<rparr>)"
  proof -
    have "offset (memFile s) + 4 \<le> length (bytes (memFile s))"
      by (simp add: lay off record_bytes_def PutUint16_def)
    from ReadFPDTRecordHeader_ok [OF this] show ?thesis
      by (simp add: lay off record_bytes_def nth_append Uint16_PutUint16)
        (simp add: PutUint16_def)
  qed
  show ?thesis
  proof (cases "is_dynamic r")
    case True
    then have l34: "34 \<le> unat (rlength r)"
      using wf by (simp add: wf_record_def)
    then have sub: "unat (rlength r - 34) = length (rbody r) - 30"
      using len by (simp add: unat_sub word_le_nat_alt)
    have body: "30 \<le> length (rbody r)" using l34 len by simp
    let ?m1 = "(memFile s)\<lparr>offset := length pre + 4\<rparr>"
    have "offset ?m1 + 30 + unat (rlength r - 34) \<le> length (bytes ?m1)"
      using body by (simp add: lay sub record_bytes_def PutUint16_def)
    from readDynamicRecord_ok [OF this]
    have "readFirmwarePerformanceDataTableDynamicRecord ?m1 (rlength r) =
        Inr (decode_body (rbody r), (memFile s)\<lparr>offset := length pre + unat (rlength r)\<rparr>)"
      using body len
      by (simp add: lay sub record_bytes_def PutUint16_def decode_body_def drop_take)
    with True hdr show ?thesis
      by (simp add: scan_body_def after_record_def is_dynamic_def off)
  next
    case False
    then have l4: "4 \<le> unat (rlength r)"
      using wf by (simp add: wf_record_def)
    then have sub: "uint (rlength r - 4) = int (length (rbody r))"
      using len by (simp add: uint_nat unat_sub word_le_nat_alt)
    let ?m1 = "(memFile s)\<lparr>offset := length pre + 4\<rparr>"
    have "offset ?m1 + length (rbody r) < 2 ^ 63"
      using fit len by simp
    from Seek_current_ok [OF this]
    have "Seek ?m1 (uint (rlength r - 4)) SeekCurrent =
        Inr ((memFile s)\<lparr>offset := length pre + unat (rlength r)\<rparr>)"
      using len by (simp add: sub)
    with False hdr show ?thesis
      by (simp add: scan_body_def after_record_def is_dynamic_def off
          EFI_ACPI_5_0_FPDT_PERFORMANCE_RECORD_HEADER_SIZE_def)
  qed
qed

lemma declared_total_simps [simp]:
  "declared_total [] = 0"
  "declared_total (r # rs) = unat (rlength r) + declared_total rs"
  "declared_total (rs @ rs') = declared_total rs + declared_total rs'"
  by (simp_all add: declared_total_def)

lemma count_dynamic_simps [simp]:
  "count_dynamic [] = 0"
  "count_dynamic (r # rs) = (if is_dynamic r then 1 else 0) + count_dynamic rs"
  "count_dynamic (rs @ rs') = count_dynamic rs + count_dynamic rs'"
  by (simp_all add: count_dynamic_def)

lemma decoded_simps [simp]:
  "decoded [] = []"
  "decoded (r # rs) = (if is_dynamic r then [decode_body (rbody r)] else []) @ decoded rs"
  "decoded (rs @ rs') = decoded rs @ decoded rs'"
  by (simp_all add: decoded_def)

lemma length_decoded [simp]: "length (decoded rs) = count_dynamic rs"
  by (simp add: decoded_def count_dynamic_def)

lemma after_record_simps [simp]:
  "bytes (memFile (after_record s r)) = bytes (memFile s)"
  "offset (memFile (after_record s r)) = offset (memFile s) + unat (rlength r)"
  "index (after_record s r) = index s + (if is_dynamic r then 1 else 0)"
  "tableBytesRead (after_record s r) = tableBytesRead s + ucast (rlength r)"
  by (simp_all add: after_record_def)

lemma scan_loop_records:
  assumes "bytes (memFile s) = pre @ concat (map record_bytes rs) @ post"
    and "offset (memFile s) = length pre"
    and "\<forall>r\<in>set rs. wf_record r"
    and "length pre + declared_total rs < 2 ^ 63"
    and "unat (tableBytesRead s) + declared_total rs \<le> unat (tablelength - 8)"
    and "rs = [] \<or> index s + count_dynamic (butlast rs) < 2000"
  shows "scan_loop tablelength s = scan_loop tablelength (foldl after_record s rs)"
  using assms
proof (induction rs arbitrary: s pre)
  case Nil
  show ?case by simp
next
  case (Cons r rs)
  have wf: "wf_record r" using Cons.prems(3) by simp
  then have l4: "4 \<le> unat (rlength r)" by (simp add: wf_record_def split: if_splits)
  have cond: "scan_cond tablelength s"
  proof -
    have "unat (tableBytesRead s) < unat (tablelength - 8)"
      using Cons.prems(5) l4 by simp
    moreover have "index s < 2000" using Cons.prems(6) by simp
    ultimately show ?thesis
      by (simp add: scan_cond_def word_less_nat_alt EFI_ACPI_5_0_FBPT_HEADER_SIZE_def
          maxNumberOfFBPTPerfRecords_def)
  qed
  have body: "scan_body s = Inr (after_record s r)"
  proof (rule scan_body_record [OF _ Cons.prems(2) wf])
    show "bytes (memFile s) = pre @ record_bytes r @ concat (map record_bytes rs) @ post"
      using Cons.prems(1) by simp
    show "length pre + unat (rlength r) < 2 ^ 63"
      using Cons.prems(4) by simp
  qed
  have step: "scan_loop tablelength s = scan_loop tablelength (after_record s r)"
    using cond body by (subst scan_loop.simps) simp
  have tbr: "unat (tableBytesRead s + ucast (rlength r)) = unat (tableBytesRead s) + unat (rlength r)"
  proof (rule unat_tableBytesRead)
    have "unat (tablelength - 8) < 2 ^ 32"
      using unsigned_less [of "tablelength - 8", where 'a = nat] by simp
    then show "unat (tableBytesRead s) + unat (rlength r) < 2 ^ 32"
      using Cons.prems(5) by simp
  qed
  have "scan_loop tablelength (after_record s r) =
      scan_loop tablelength (foldl after_record (after_record s r) rs)"
  proof (rule Cons.IH [where pre = "pre @ record_bytes r"])
    show "bytes (memFile (after_record s r)) =
        (pre @ record_bytes r) @ concat (map record_bytes rs) @ post"
      using Cons.prems(1) by simp
    show "offset (memFile (after_record s r)) = length (pre @ record_bytes r)"
      using Cons.prems(2) wf by (simp add: length_record_bytes)
    show "\<forall>r\<in>set rs. wf_record r" using Cons.prems(3) by simp
    show "length (pre @ record_bytes r) + declared_total rs < 2 ^ 63"
      using Cons.prems(4) wf by (simp add: length_record_bytes add.assoc)
    show "unat (tableBytesRead (after_record s r)) + declared_total rs \<le> unat (tablelength - 8)"
      using Cons.prems(5) by (simp add: tbr)
    show "rs = [] \<or> index (after_record s r) + count_dynamic (butlast rs) < 2000"
      using Cons.prems(6) by (cases "rs = []") auto
  qed
  with step show ?case by simp
qed

lemma after_records_simps [simp]:
  "bytes (memFile (foldl after_record s rs)) = bytes (memFile s)"
  "offset (memFile (foldl after_record s rs)) = offset (memFile s) + declared_total rs"
  "index (foldl after_record s rs) = index s + count_dynamic rs"
  "tableBytesRead (foldl after_record s rs) = tableBytesRead s + of_nat (declared_total rs)"
  by (induction rs arbitrary: s) (simp_all add: add.assoc)

lemma after_records_measurementRecords:
  assumes "measurementRecords s = ds @ replicate k z"
    and "index s = length ds" and "count_dynamic rs \<le> k"
  shows "measurementRecords (foldl after_record s rs) =
      ds @ decoded rs @ replicate (k - count_dynamic rs) z"
  using assms
proof (induction rs arbitrary: s ds k)
  case Nil
  then show ?case by simp
next
  case (Cons r rs)
  show ?case
  proof (cases "is_dynamic r")
    case True
    with Cons.prems(3) obtain k' where k: "k = Suc k'" and le: "count_dynamic rs \<le> k'"
      by (cases k) auto
    have "measurementRecords (after_record s r) = (ds @ [decode_body (rbody r)]) @ replicate k' z"
      using True Cons.prems(1,2) by (simp add: after_record_def k)
    moreover have "index (after_record s r) = length (ds @ [decode_body (rbody r)])"
      using True Cons.prems(2) by simp
    ultimately have "measurementRecords (foldl after_record (after_record s r) rs) =
        (ds @ [decode_body (rbody r)]) @ decoded rs @ replicate (k' - count_dynamic rs) z"
      using le by (rule Cons.IH)
    with True show ?thesis by (simp add: k)
  next
    case False
    have "measurementRecords (after_record s r) = ds @ replicate k z"
      using False Cons.prems(1) by (simp add: after_record_def)
    moreover have "index (after_record s r) = length ds"
      using False Cons.prems(2) by simp
    moreover have "count_dynamic rs \<le> k" using False Cons.prems(3) by simp
    ultimately have "measurementRecords (foldl after_record (after_record s r) rs) =
        ds @ decoded rs @ replicate (k - count_dynamic rs) z"
      by (rule Cons.IH)
    with False show ?thesis by simp
  qed
qed

lemma verifyFBPTSignature_header:
  assumes "bytes mem = pre @ bytes_of_string FBPTStructureSig @ PutUint32 tablelength @ rest"
    and "length pre < 2 ^ 63"
  shows "verifyFBPTSignature mem (of_nat (length pre)) =
      Inr (tablelength, mem\<lparr>offset := length pre + 8\<rparr>)"
proof -
  have a: "sint (of_nat (length pre) :: uint64) = int (length pre)"
    using assms(2) by (rule sint_address)
  have "Seek mem (sint (of_nat (length pre) :: uint64)) SeekStart =
      Inr (mem\<lparr>offset := nat (sint (of_nat (length pre) :: uint64))\<rparr>)"
    by (rule Seek_start_ok) (simp add: a)
  then have k: "Seek mem (sint (of_nat (length pre) :: uint64)) SeekStart =
      Inr (mem\<lparr>offset := length pre\<rparr>)"
    by (simp add: a)
  have r1: "ReadFull (mem\<lparr>offset := length pre\<rparr>) 4 =
      Inr (bytes_of_string FBPTStructureSig, mem\<lparr>offset := length pre + 4\<rparr>)"
    by (subst ReadFull_ok) (simp_all add: assms(1) FBPTStructureSig_def)
  have r2: "ReadFull (mem\<lparr>offset := length pre + 4\<rparr>) 4 =
      Inr (PutUint32 tablelength, mem\<lparr>offset := length pre + 8\<rparr>)"
    by (subst ReadFull_ok) (simp_all add: assms(1) FBPTStructureSig_def)
  have u: "Uint32 (PutUint32 tablelength) = tablelength"
    using Uint32_PutUint32 [of tablelength "[]"] by simp
  show ?thesis
    by (simp add: verifyFBPTSignature_def k r1 r2 string_of_bytes_of_string u)
qed

lemma count_dynamic_butlast: "count_dynamic rs \<le> Suc (count_dynamic (butlast rs))"
  by (induction rs) auto

text \<open>
  The scan of a source that holds a table: the loop passes over the records \<open>rs1\<close>
  and stops after them, because the count or the table length is reached.
\<close>

lemma FindAllFBPTRecords_table:
  assumes lay: "bytes mem = pre @ table_image tablelength (rs1 @ rs2) @ post"
    and wf: "list_all wf_record rs1"
    and fit: "length pre + 8 + declared_total rs1 < 2 ^ 63"
    and le: "declared_total rs1 \<le> unat (tablelength - 8)"
    and cap: "count_dynamic (butlast rs1) < 2000"
    and stop: "count_dynamic rs1 = 2000 \<or> declared_total rs1 = unat (tablelength - 8)"
  shows "scan_loop tablelength (scan_init (mem\<lparr>offset := length pre + 8\<rparr>)) =
      Inr (foldl after_record (scan_init (mem\<lparr>offset := length pre + 8\<rparr>)) rs1)"
    and "FindAllFBPTRecords (Inr mem) (of_nat (length pre)) =
      (count_dynamic rs1,
       decoded rs1 @ replicate (2000 - count_dynamic rs1) zero_MEASUREMENT_RECORD, None)"
proof -
  let ?s0 = "scan_init (mem\<lparr>offset := length pre + 8\<rparr>)"
  let ?s1 = "foldl after_record ?s0 rs1"
  have v: "verifyFBPTSignature mem (of_nat (length pre)) =
      Inr (tablelength, mem\<lparr>offset := length pre + 8\<rparr>)"
    using fit by (intro verifyFBPTSignature_header) (simp_all add: lay table_image_def)
  have "scan_loop tablelength ?s0 = scan_loop tablelength ?s1"
  proof (rule scan_loop_records
      [where pre = "pre @ bytes_of_string FBPTStructureSig @ PutUint32 tablelength"
        and post = "concat (map record_bytes rs2) @ post"])
    show "bytes (memFile ?s0) =
        (pre @ bytes_of_string FBPTStructureSig @ PutUint32 tablelength)
          @ concat (map record_bytes rs1) @ concat (map record_bytes rs2) @ post"
      by (simp add: scan_init_def lay table_image_def)
    show "offset (memFile ?s0) =
        length (pre @ bytes_of_string FBPTStructureSig @ PutUint32 tablelength)"
      by (simp add: scan_init_def FBPTStructureSig_def)
    show "\<forall>r\<in>set rs1. wf_record r" using wf by (simp add: list_all_iff)
    show "length (pre @ bytes_of_string FBPTStructureSig @ PutUint32 tablelength)
        + declared_total rs1 < 2 ^ 63"
      using fit by (simp add: FBPTStructureSig_def)
    show "unat (tableBytesRead ?s0) + declared_total rs1 \<le> unat (tablelength - 8)"
      using le by (simp add: scan_init_def)
    show "rs1 = [] \<or> index ?s0 + count_dynamic (butlast rs1) < 2000"
      using cap by (simp add: scan_init_def)
  qed
  moreover have "\<not> scan_cond tablelength ?s1"
  proof -
    have "tableBytesRead ?s1 = of_nat (declared_total rs1)"
      by (simp add: scan_init_def)
    then have "declared_total rs1 = unat (tablelength - 8) \<Longrightarrow> tableBytesRead ?s1 = tablelength - 8"
      by simp
    moreover have "index ?s1 = count_dynamic rs1" by (simp add: scan_init_def)
    ultimately show ?thesis
      using stop
      by (auto simp: scan_cond_def EFI_ACPI_5_0_FBPT_HEADER_SIZE_def
          maxNumberOfFBPTPerfRecords_def)
  qed
  ultimately show loop: "scan_loop tablelength ?s0 = Inr ?s1"
    by (simp add: scan_loop.simps [of tablelength ?s1])
  have n: "count_dynamic rs1 \<le> 2000"
    using cap count_dynamic_butlast [of rs1] by simp
  have "measurementRecords ?s1 =
      [] @ decoded rs1 @ replicate (2000 - count_dynamic rs1) zero_MEASUREMENT_RECORD"
    by (rule after_records_measurementRecords)
      (simp_all add: scan_init_def maxNumberOfFBPTPerfRecords_def n)
  then show "FindAllFBPTRecords (Inr mem) (of_nat (length pre)) =
      (count_dynamic rs1,
       decoded rs1 @ replicate (2000 - count_dynamic rs1) zero_MEASUREMENT_RECORD, None)"
    by (simp add: FindAllFBPTRecords_def v loop) (simp add: scan_init_def)
qed

lemma split_at_dynamic:
  assumes "n \<le> count_dynamic rs" and "0 < n"
  shows "\<exists>rs1 rs2. rs = rs1 @ rs2 \<and> count_dynamic rs1 = n \<and> count_dynamic (butlast rs1) < n"
  using assms
proof (induction rs arbitrary: n)
  case Nil
  then show ?case by simp
next
  case (Cons r rs)
  show ?case
  proof (cases "is_dynamic r \<and> n = 1")
    case True
    then have "r # rs = [r] @ rs \<and> count_dynamic [r] = n \<and> count_dynamic (butlast [r]) < n"
      by simp
    then show ?thesis by blast
  next
    case False
    define m where "m = (if is_dynamic r then n - 1 else n)"
    have "m \<le> count_dynamic rs" and "0 < m"
      using Cons.prems False by (auto simp: m_def split: if_splits)
    from Cons.IH [OF this] obtain rs1 rs2 where
      rs: "rs = rs1 @ rs2" and c: "count_dynamic rs1 = m" and b: "count_dynamic (butlast rs1) < m"
      by blast
    from c \<open>0 < m\<close> have ne: "rs1 \<noteq> []" by auto
    have "r # rs = (r # rs1) @ rs2 \<and> count_dynamic (r # rs1) = n
        \<and> count_dynamic (butlast (r # rs1)) < n"
      using rs c b ne Cons.prems(2) by (auto simp: m_def split: if_splits)
    then show ?thesis by blast
  qed
qed

lemma count_dynamic_replicate:
  "count_dynamic (replicate n r) = (if is_dynamic r then n else 0)"
  by (induction n) simp_all

lemma declared_total_replicate: "declared_total (replicate n r) = n * unat (rlength r)"
  by (induction n) simp_all

lemma decoded_replicate:
  "decoded (replicate n r) = (if is_dynamic r then replicate n (decode_body (rbody r)) else [])"
  by (induction n) simp_all

lemma list_all_replicate: "P r \<Longrightarrow> list_all P (replicate n r)"
  by (simp add: list_all_iff)

lemma butlast_replicate_same: "butlast (replicate n x) = replicate (n - 1) x"
proof (cases n)
  case 0
  then show ?thesis by simp
next
  case (Suc m)
  have "replicate (Suc m) x = replicate m x @ [x]"
    by (simp add: replicate_append_same)
  then show ?thesis using Suc by (simp del: replicate.simps)
qed

subsection \<open>The passes of the loop\<close>

lemma scan_body_index:
  assumes "scan_body s = Inr s'"
  shows "index s' = index s + (if decoded_pass s' then 1 else 0)"
  using assms
  by (auto simp: scan_body_def decoded_pass_def Let_def split: sum.splits if_splits)

lemma scan_body_records:
  assumes "scan_body s = Inr s'"
  shows "length (measurementRecords s') = length (measurementRecords s)"
    and "drop (index s') (measurementRecords s') = drop (index s') (measurementRecords s)"
  using assms
  by (auto simp: scan_body_def Let_def split: sum.splits if_splits)

lemma scan_loop_index:
  "result_index (scan_loop tablelength s) =
     index s + length (filter decoded_pass (scan_passes tablelength s))"
proof (induction tablelength s rule: scan_loop.induct)
  case (1 tablelength s)
  show ?case
  proof (cases "scan_cond tablelength s")
    case False
    then show ?thesis
      by (simp add: scan_loop.simps [of tablelength s] scan_passes.simps [of tablelength s]
          result_index_def)
  next
    case True
    show ?thesis
    proof (cases "scan_body s")
      case (Inl err)
      with True show ?thesis
        by (simp add: scan_loop.simps [of tablelength s] scan_passes.simps [of tablelength s]
            result_index_def)
    next
      case (Inr s')
      from "1.IH" [OF True Inr] scan_body_index [OF Inr] True Inr show ?thesis
        by (simp add: scan_loop.simps [of tablelength s] scan_passes.simps [of tablelength s])
    qed
  qed
qed

lemma scan_passes_bound:
  "4 * length (scan_passes tablelength s) \<le> length (bytes (memFile s)) - offset (memFile s)"
proof (induction tablelength s rule: scan_passes.induct)
  case (1 tablelength s)
  show ?case
  proof (cases "scan_cond tablelength s")
    case False
    then show ?thesis by (simp add: scan_passes.simps [of tablelength s])
  next
    case True
    show ?thesis
    proof (cases "scan_body s")
      case (Inl err)
      with True show ?thesis by (simp add: scan_passes.simps [of tablelength s])
    next
      case (Inr s')
      from "1.IH" [OF True Inr] scan_body_progress [OF Inr] True Inr show ?thesis
        by (simp add: scan_passes.simps [of tablelength s])
    qed
  qed
qed

lemma scan_loop_last:
  "scan_loop tablelength s = Inr s' \<Longrightarrow> s' = last (s # scan_passes tablelength s)"
proof (induction tablelength s rule: scan_loop.induct)
  case (1 tablelength s)
  show ?case
  proof (cases "scan_cond tablelength s")
    case False
    with "1.prems" have "s' = s" by (simp add: scan_loop.simps [of tablelength s])
    moreover from False have "scan_passes tablelength s = []"
      by (simp add: scan_passes.simps [of tablelength s])
    ultimately show ?thesis by simp
  next
    case True
    show ?thesis
    proof (cases "scan_body s")
      case (Inl err)
      with True "1.prems" show ?thesis by (simp add: scan_loop.simps [of tablelength s])
    next
      case (Inr s1)
      with True "1.prems" have "scan_loop tablelength s1 = Inr s'"
        by (simp add: scan_loop.simps [of tablelength s])
      from "1.IH" [OF True Inr this] True Inr show ?thesis
        by (simp add: scan_passes.simps [of tablelength s])
    qed
  qed
qed

text \<open>
  A pass fails exactly when the read of the record header fails, or the header is that
  of a dynamic-string record and its decoding fails, or it is not and the seek past
  the record fails; the error of the pass is the error of that step.
\<close>

lemma scan_body_fails_iff:
  "scan_body s = Inl err \<longleftrightarrow>
     ReadFPDTRecordHeader (memFile s) = Inl err
     \<or> (\<exists>t l r m1. ReadFPDTRecordHeader (memFile s) = Inr ((t, l, r), m1)
          \<and> t = FPDT_DYNAMIC_STRING_EVENT_RECORD_IDENTIFIER
          \<and> readFirmwarePerformanceDataTableDynamicRecord m1 l = Inl err)
     \<or> (\<exists>t l r m1. ReadFPDTRecordHeader (memFile s) = Inr ((t, l, r), m1)
          \<and> t \<noteq> FPDT_DYNAMIC_STRING_EVENT_RECORD_IDENTIFIER
          \<and> Seek m1 (uint (l - 4)) SeekCurrent = Inl err)"
proof (cases "ReadFPDTRecordHeader (memFile s)")
  case (Inl e)
  then show ?thesis by (simp add: scan_body_def)
next
  case (Inr p)
  obtain t l r m1 where p: "p = ((t, l, r), m1)" by (cases p) auto
  show ?thesis
  proof (cases "t = FPDT_DYNAMIC_STRING_EVENT_RECORD_IDENTIFIER")
    case True
    with Inr p show ?thesis
      by (simp add: scan_body_def Let_def split: sum.splits prod.splits)
  next
    case False
    with Inr p show ?thesis
      by (simp add: scan_body_def Let_def
          EFI_ACPI_5_0_FPDT_PERFORMANCE_RECORD_HEADER_SIZE_def split: sum.splits)
  qed
qed

text \<open>
  A pass that fails ends the loop: the loop returns the error of the pass and the value
  of \<open>index\<close> in the state the pass started from.
\<close>

lemma scan_loop_fails:
  assumes "scan_cond tablelength (last (s # scan_passes tablelength s))"
    and "scan_body (last (s # scan_passes tablelength s)) = Inl err"
  shows "scan_loop tablelength s = Inl (index (last (s # scan_passes tablelength s)), err)"
  using assms
proof (induction tablelength s rule: scan_loop.induct)
  case (1 tablelength s)
  show ?case
  proof (cases "scan_cond tablelength s")
    case False
    then have "scan_passes tablelength s = []"
      by (simp add: scan_passes.simps [of tablelength s])
    with "1.prems"(1) False show ?thesis by simp
  next
    case True
    show ?thesis
    proof (cases "scan_body s")
      case (Inl e)
      with True have p: "scan_passes tablelength s = []"
        by (simp add: scan_passes.simps [of tablelength s])
      with "1.prems"(2) Inl have "e = err" by simp
      with True Inl p show ?thesis by (simp add: scan_loop.simps [of tablelength s])
    next
      case (Inr s1)
      with True have p: "scan_passes tablelength s = s1 # scan_passes tablelength s1"
        by (simp add: scan_passes.simps [of tablelength s])
      then have l: "last (s # scan_passes tablelength s) = last (s1 # scan_passes tablelength s1)"
        by simp
      from "1.IH" [OF True Inr] "1.prems" l
      have "scan_loop tablelength s1 =
          Inl (index (last (s1 # scan_passes tablelength s1)), err)"
        by simp
      with True Inr l show ?thesis by (simp add: scan_loop.simps [of tablelength s])
    qed
  qed
qed

lemma scan_loop_stops:
  "scan_loop tablelength s = Inr s' \<Longrightarrow> \<not> scan_cond tablelength s'"
proof (induction tablelength s rule: scan_loop.induct)
  case (1 tablelength s)
  show ?case
  proof (cases "scan_cond tablelength s")
    case False
    with "1.prems" show ?thesis by (simp add: scan_loop.simps [of tablelength s])
  next
    case True
    show ?thesis
    proof (cases "scan_body s")
      case (Inl err)
      with True "1.prems" show ?thesis by (simp add: scan_loop.simps [of tablelength s])
    next
      case (Inr s1)
      with True "1.prems" have "scan_loop tablelength s1 = Inr s'"
        by (simp add: scan_loop.simps [of tablelength s])
      from "1.IH" [OF True Inr this] show ?thesis .
    qed
  qed
qed

lemma scan_body_slice_inv:
  assumes "scan_body s = Inr s'" and "scan_cond tablelength s" and "slice_inv s"
  shows "slice_inv s'"
proof -
  have lt: "index s < maxNumberOfFBPTPerfRecords"
    using assms(2) by (simp add: scan_cond_def)
  note i = scan_body_index [OF assms(1)]
  note r = scan_body_records [OF assms(1)]
  have "set (drop (index s') (measurementRecords s)) \<subseteq> set (drop (index s) (measurementRecords s))"
    using i by (intro set_drop_subset_set_drop) simp
  then have "list_all (\<lambda>r. r = zero_MEASUREMENT_RECORD) (drop (index s') (measurementRecords s))"
    using assms(3) by (auto simp: slice_inv_def list_all_iff)
  with i r lt assms(3) show ?thesis
    by (simp add: slice_inv_def)
qed

lemma scan_loop_slice_inv:
  "scan_loop tablelength s = Inr s' \<Longrightarrow> slice_inv s \<Longrightarrow> slice_inv s'"
proof (induction tablelength s rule: scan_loop.induct)
  case (1 tablelength s)
  show ?case
  proof (cases "scan_cond tablelength s")
    case False
    with "1.prems" show ?thesis by (simp add: scan_loop.simps [of tablelength s])
  next
    case True
    show ?thesis
    proof (cases "scan_body s")
      case (Inl err)
      with True "1.prems" show ?thesis by (simp add: scan_loop.simps [of tablelength s])
    next
      case (Inr s1)
      with True "1.prems" have "scan_loop tablelength s1 = Inr s'"
        by (simp add: scan_loop.simps [of tablelength s])
      from "1.IH" [OF True Inr this scan_body_slice_inv [OF Inr True "1.prems"(2)]]
      show ?thesis .
    qed
  qed
qed

lemma slice_inv_init: "slice_inv (scan_init f1)"
  by (simp add: slice_inv_def scan_init_def list_all_iff)

lemma FindAllFBPTRecords_count:
  "fst (FindAllFBPTRecords dev FBPTAddr) = decoded_count dev FBPTAddr"
proof (cases dev)
  case (Inl err)
  then show ?thesis by (simp add: FindAllFBPTRecords_def decoded_count_def)
next
  case (Inr f)
  show ?thesis
  proof (cases "verifyFBPTSignature f FBPTAddr")
    case (Inl err)
    with Inr show ?thesis by (simp add: FindAllFBPTRecords_def decoded_count_def)
  next
    case v: (Inr p)
    obtain tablelength f1 where p: "p = (tablelength, f1)" by (cases p)
    have "fst (FindAllFBPTRecords dev FBPTAddr) =
        result_index (scan_loop tablelength (scan_init f1))"
      using Inr v p
      by (simp add: FindAllFBPTRecords_def result_index_def split: sum.splits prod.splits)
    also have "\<dots> = length (filter decoded_pass (scan_passes tablelength (scan_init f1)))"
      by (simp add: scan_loop_index scan_init_def)
    finally show ?thesis using Inr v p by (simp add: decoded_count_def)
  qed
qed

lemma FindAllFBPTRecords_success:
  assumes "FindAllFBPTRecords dev FBPTAddr = (n, recs, None)"
  obtains f tablelength f1 s' where "dev = Inr f"
    and "verifyFBPTSignature f FBPTAddr = Inr (tablelength, f1)"
    and "scan_loop tablelength (scan_init f1) = Inr s'"
    and "n = index s'" and "recs = measurementRecords s'"
  using assms
  by (auto simp: FindAllFBPTRecords_def split: sum.splits prod.splits)

subsection \<open>The sample inputs\<close>

lemma sample_dynamic_facts:
  "wf_record sample_dynamic" "is_dynamic sample_dynamic" "unat (rlength sample_dynamic) = 36"
  by (simp_all add: sample_dynamic_def wf_record_def is_dynamic_def
      FPDT_DYNAMIC_STRING_EVENT_RECORD_IDENTIFIER_def)

lemma sample_other_facts:
  "wf_record sample_other" "\<not> is_dynamic sample_other" "unat (rlength sample_other) = 8"
  by (simp_all add: sample_other_def wf_record_def is_dynamic_def
      FPDT_DYNAMIC_STRING_EVENT_RECORD_IDENTIFIER_def)

lemma sample_dynamic_decoded:
  "decode_body (rbody sample_dynamic) =
     \<lparr>HookType = ''MODULE_START_ID'', ProcessorIdentifier = 7,
      Timestamp = 0x0807060504030201, GUID = replicate 16 0xAB, Description = ''hi''\<rparr>"
proof -
  have "eventTypeMap_index 1 = ''MODULE_START_ID''"
    by (rule eventTypeMap_index_in) (simp add: eventTypeTable_def)
  moreover have "string_of_bytes (bytes_of_string ''hi'') = ''hi''"
    by (rule string_of_bytes_of_string)
  ultimately show ?thesis
    by (simp add: decode_body_def sample_dynamic_def)
qed

lemma truncated_source_result:
  "FindAllFBPTRecords (Inr truncated_source) 0 = (1, [], Some ErrUnexpectedEOF)"
  by code_simp

lemma truncated_source_trace:
  "verifyFBPTSignature truncated_source 0 = Inr (80, truncated_source\<lparr>offset := 8\<rparr>)"
  "scan_cond 80 (last (scan_init (truncated_source\<lparr>offset := 8\<rparr>)
      # scan_passes 80 (scan_init (truncated_source\<lparr>offset := 8\<rparr>))))"
  "scan_body (last (scan_init (truncated_source\<lparr>offset := 8\<rparr>)
      # scan_passes 80 (scan_init (truncated_source\<lparr>offset := 8\<rparr>)))) = Inl ErrUnexpectedEOF"
  by code_simp+

lemma single_record_source_result:
  "FindAllFBPTRecords (Inr single_record_source) 0 =
     (1, decode_body (rbody sample_dynamic) # replicate 1999 zero_MEASUREMENT_RECORD, None)"
proof -
  have lay: "bytes single_record_source = [] @ table_image 44 ([sample_dynamic] @ []) @ []"
    by (simp add: single_record_source_def)
  have wf: "list_all wf_record [sample_dynamic]" by (simp add: sample_dynamic_facts)
  have fit: "length ([] :: byte list) + 8 + declared_total [sample_dynamic] < 2 ^ 63"
    by (simp add: sample_dynamic_facts)
  have le: "declared_total [sample_dynamic] \<le> unat ((44 :: uint32) - 8)"
    by (simp add: sample_dynamic_facts)
  have cap: "count_dynamic (butlast [sample_dynamic]) < 2000" by simp
  have stop: "count_dynamic [sample_dynamic] = 2000
      \<or> declared_total [sample_dynamic] = unat ((44 :: uint32) - 8)"
    by (simp add: sample_dynamic_facts)
  from FindAllFBPTRecords_table(2) [OF lay wf fit le cap stop] show ?thesis
    by (simp add: sample_dynamic_facts del: replicate.simps)
qed

lemma zero_source_result:
  "scan_loop 1000 (scan_init zero_source) = Inl (0, EOF)"
  "length (scan_passes 1000 (scan_init zero_source)) = 3"
  by code_simp+

section \<open>The claims\<close>

subsection \<open>C1: the result of a failed scan\<close>

text \<open>
  Claim C1, amended. Every failure makes \<open>FindAllFBPTRecords\<close> return the error with a
  count and the \<open>nil\<close> slice. A failure to open the device or to validate the signature
  gives the count 0. When the loop has made its passes and the next pass fails (the
  read of the record header, the decoding of a dynamic-string record or the seek past
  another record returns an error), the scan returns that error, the number \<open>k\<close> of
  dynamic-string records decoded by the passes before, and the \<open>nil\<close> slice: the count
  is kept, the \<open>k\<close> decoded records themselves are not returned. And whenever the scan
  returns an error, the slice is \<open>nil\<close> and the count is the number of records decoded.
\<close>

theorem FindAllFBPTRecords_error_result:
  "(dev = Inl err \<longrightarrow> FindAllFBPTRecords dev FBPTAddr = (0, [], Some err))
   \<and> (dev = Inr f \<and> verifyFBPTSignature f FBPTAddr = Inl err \<longrightarrow>
        FindAllFBPTRecords dev FBPTAddr = (0, [], Some err))
   \<and> (dev = Inr f \<and> verifyFBPTSignature f FBPTAddr = Inr (tablelength, f1)
        \<and> s = last (scan_init f1 # scan_passes tablelength (scan_init f1))
        \<and> scan_cond tablelength s
        \<and> (ReadFPDTRecordHeader (memFile s) = Inl err
            \<or> (\<exists>t l r m1. ReadFPDTRecordHeader (memFile s) = Inr ((t, l, r), m1)
                  \<and> t = FPDT_DYNAMIC_STRING_EVENT_RECORD_IDENTIFIER
                  \<and> readFirmwarePerformanceDataTableDynamicRecord m1 l = Inl err)
            \<or> (\<exists>t l r m1. ReadFPDTRecordHeader (memFile s) = Inr ((t, l, r), m1)
                  \<and> t \<noteq> FPDT_DYNAMIC_STRING_EVENT_RECORD_IDENTIFIER
                  \<and> Seek m1 (uint (l - 4)) SeekCurrent = Inl err)) \<longrightarrow>
        FindAllFBPTRecords dev FBPTAddr = (index s, [], Some err)
        \<and> index s = length (filter decoded_pass (scan_passes tablelength (scan_init f1))))
   \<and> (FindAllFBPTRecords dev FBPTAddr = (k, recs, Some err) \<longrightarrow>
        recs = [] \<and> k = decoded_count dev FBPTAddr)"
proof (intro conjI impI)
  assume "dev = Inl err"
  then show "FindAllFBPTRecords dev FBPTAddr = (0, [], Some err)"
    by (simp add: FindAllFBPTRecords_def)
next
  assume "dev = Inr f \<and> verifyFBPTSignature f FBPTAddr = Inl err"
  then show "FindAllFBPTRecords dev FBPTAddr = (0, [], Some err)"
    by (simp add: FindAllFBPTRecords_def)
next
  assume a: "dev = Inr f \<and> verifyFBPTSignature f FBPTAddr = Inr (tablelength, f1)
        \<and> s = last (scan_init f1 # scan_passes tablelength (scan_init f1))
        \<and> scan_cond tablelength s
        \<and> (ReadFPDTRecordHeader (memFile s) = Inl err
            \<or> (\<exists>t l r m1. ReadFPDTRecordHeader (memFile s) = Inr ((t, l, r), m1)
                  \<and> t = FPDT_DYNAMIC_STRING_EVENT_RECORD_IDENTIFIER
                  \<and> readFirmwarePerformanceDataTableDynamicRecord m1 l = Inl err)
            \<or> (\<exists>t l r m1. ReadFPDTRecordHeader (memFile s) = Inr ((t, l, r), m1)
                  \<and> t \<noteq> FPDT_DYNAMIC_STRING_EVENT_RECORD_IDENTIFIER
                  \<and> Seek m1 (uint (l - 4)) SeekCurrent = Inl err))"
  then have s: "s = last (scan_init f1 # scan_passes tablelength (scan_init f1))"
    and c: "scan_cond tablelength s"
    by blast+
  have b: "scan_body s = Inl err"
    unfolding scan_body_fails_iff using a by blast
  from a have v: "dev = Inr f \<and> verifyFBPTSignature f FBPTAddr = Inr (tablelength, f1)"
    by blast
  have "scan_loop tablelength (scan_init f1) = Inl (index s, err)"
    using c b unfolding s by (rule scan_loop_fails)
  with v show r: "FindAllFBPTRecords dev FBPTAddr = (index s, [], Some err)"
    by (simp add: FindAllFBPTRecords_def)
  from FindAllFBPTRecords_count [of dev FBPTAddr] r v
  show "index s = length (filter decoded_pass (scan_passes tablelength (scan_init f1)))"
    by (simp add: decoded_count_def)
next
  assume a: "FindAllFBPTRecords dev FBPTAddr = (k, recs, Some err)"
  then show "recs = []"
    by (auto simp: FindAllFBPTRecords_def split: sum.splits prod.splits)
  from FindAllFBPTRecords_count [of dev FBPTAddr] a
  show "k = decoded_count dev FBPTAddr" by simp
qed

theorem FindAllFBPTRecords_error_result_witness:
  "FindAllFBPTRecords (Inr truncated_source) 0 = (1, [], Some ErrUnexpectedEOF)
   \<and> length (filter decoded_pass
        (scan_passes 80 (scan_init (truncated_source\<lparr>offset := 8\<rparr>)))) = 1"
proof -
  let ?s = "last (scan_init (truncated_source\<lparr>offset := 8\<rparr>)
      # scan_passes 80 (scan_init (truncated_source\<lparr>offset := 8\<rparr>)))"
  note t = FindAllFBPTRecords_error_result
    [of "Inr truncated_source" ErrUnexpectedEOF 0 truncated_source 80
      "truncated_source\<lparr>offset := 8\<rparr>" ?s]
  note t3 = t [THEN conjunct2, THEN conjunct2, THEN conjunct1, rule_format]
  have "FindAllFBPTRecords (Inr truncated_source) 0 = (index ?s, [], Some ErrUnexpectedEOF)
      \<and> index ?s = length (filter decoded_pass
          (scan_passes 80 (scan_init (truncated_source\<lparr>offset := 8\<rparr>))))"
    by (rule t3)
      (intro conjI refl truncated_source_trace(1,2)
        truncated_source_trace(3) [unfolded scan_body_fails_iff])
  with truncated_source_result show ?thesis by simp
qed

text \<open>
  Claim C1 as stated fails on the truncated table: the scan decodes the first record
  and fails in the second; it returns the count 1 and the error, and no record.
\<close>

theorem FindAllFBPTRecords_error_result_counterexample:
  "FindAllFBPTRecords (Inr truncated_source) 0 = (1, [], Some ErrUnexpectedEOF)
   \<and> take 1 (fst (snd (FindAllFBPTRecords (Inr truncated_source) 0)))
       \<noteq> [decode_body (rbody sample_dynamic)]"
  by (simp add: truncated_source_result)

subsection \<open>C2: a well-formed table\<close>

text \<open>
  Claim C2, amended. Take a well-formed table: records of declared length at least 4
  (at least 34 for the dynamic-string records), whose lengths sum to the table length
  minus 8, laid out after the header at a base address, the whole below offset
  \<open>2 ^ 63\<close>. If fewer than 2000 dynamic-string records come before the last record of
  the table, the scan returns the number \<open>N\<close> of dynamic-string records as count, the
  decoded records in table order as the first \<open>N\<close> entries of the slice of 2000, and no
  error; the loop ends with \<open>tableBytesRead\<close> equal to the table length minus 8 and the
  cursor at the end of the table.
\<close>

theorem scan_well_formed_table:
  assumes "list_all wf_record rs"
    and "unat tablelength = 8 + declared_total rs"
    and "count_dynamic (butlast rs) < maxNumberOfFBPTPerfRecords"
    and "length pre + unat tablelength < 2 ^ 63"
    and "bytes mem = pre @ table_image tablelength rs @ post"
  shows "FindAllFBPTRecords (Inr mem) (of_nat (length pre)) =
      (count_dynamic rs,
       decoded rs @ replicate (maxNumberOfFBPTPerfRecords - count_dynamic rs) zero_MEASUREMENT_RECORD,
       None)
    \<and> (\<exists>s'. scan_loop tablelength (scan_init (mem\<lparr>offset := length pre + 8\<rparr>)) = Inr s'
          \<and> tableBytesRead s' = tablelength - 8
          \<and> unat (tableBytesRead s') = declared_total rs
          \<and> offset (memFile s') = length pre + unat tablelength)"
proof -
  have sub: "unat (tablelength - 8) = declared_total rs"
    using assms(2) by (rule unat_tablelength_sub)
  note t = FindAllFBPTRecords_table [where ?rs1.0 = rs and ?rs2.0 = "[]" and pre = pre
      and post = post and mem = mem and tablelength = tablelength]
  have lay: "bytes mem = pre @ table_image tablelength (rs @ []) @ post"
    using assms(5) by simp
  have fit: "length pre + 8 + declared_total rs < 2 ^ 63"
    using assms(2,4) by (simp add: add.assoc)
  have le: "declared_total rs \<le> unat (tablelength - 8)" by (simp add: sub)
  have cap: "count_dynamic (butlast rs) < 2000"
    using assms(3) by (simp add: maxNumberOfFBPTPerfRecords_def)
  have stop: "count_dynamic rs = 2000 \<or> declared_total rs = unat (tablelength - 8)"
    by (simp add: sub)
  let ?s' = "foldl after_record (scan_init (mem\<lparr>offset := length pre + 8\<rparr>)) rs"
  have "tableBytesRead ?s' = of_nat (unat (tablelength - 8))"
    by (simp only: sub) (simp add: scan_init_def)
  then have tbr: "tableBytesRead ?s' = tablelength - 8" by simp
  have "offset (memFile ?s') = length pre + unat tablelength"
    using assms(2) by (simp add: scan_init_def)
  with t(1) [OF lay assms(1) fit le cap stop] tbr sub
  have "\<exists>s'. scan_loop tablelength (scan_init (mem\<lparr>offset := length pre + 8\<rparr>)) = Inr s'
          \<and> tableBytesRead s' = tablelength - 8
          \<and> unat (tableBytesRead s') = declared_total rs
          \<and> offset (memFile s') = length pre + unat tablelength"
    by simp
  with t(2) [OF lay assms(1) fit le cap stop] show ?thesis
    by (simp add: maxNumberOfFBPTPerfRecords_def)
qed

theorem scan_well_formed_table_witness:
  "FindAllFBPTRecords
     (Inr \<lparr>bytes = table_image 60 [sample_other, sample_dynamic, sample_other], offset = 0\<rparr>) 0 =
   (1, \<lparr>HookType = ''MODULE_START_ID'', ProcessorIdentifier = 7,
        Timestamp = 0x0807060504030201, GUID = replicate 16 0xAB, Description = ''hi''\<rparr>
       # replicate 1999 zero_MEASUREMENT_RECORD, None)"
proof -
  let ?rs = "[sample_other, sample_dynamic, sample_other]"
  let ?mem = "\<lparr>bytes = table_image 60 ?rs, offset = 0\<rparr>"
  have h1: "list_all wf_record ?rs"
    by (simp add: sample_dynamic_facts sample_other_facts)
  have h2: "unat (60 :: uint32) = 8 + declared_total ?rs"
    by (simp add: sample_dynamic_facts sample_other_facts)
  have h3: "count_dynamic (butlast ?rs) < maxNumberOfFBPTPerfRecords"
    by (simp add: sample_dynamic_facts sample_other_facts maxNumberOfFBPTPerfRecords_def)
  have h4: "length ([] :: byte list) + unat (60 :: uint32) < 2 ^ 63" by simp
  have h5: "bytes ?mem = [] @ table_image 60 ?rs @ []" by simp
  from scan_well_formed_table [OF h1 h2 h3 h4 h5] show ?thesis
    by (simp add: sample_dynamic_facts sample_other_facts sample_dynamic_decoded
        maxNumberOfFBPTPerfRecords_def del: replicate.simps)
qed

text \<open>
  Claim C2 as stated fails on a well-formed table of 2001 dynamic-string records: the
  scan returns the count 2000.
\<close>

theorem scan_well_formed_table_counterexample:
  "list_all wf_record (replicate 2001 sample_dynamic)
   \<and> unat (72044 :: uint32) = 8 + declared_total (replicate 2001 sample_dynamic)
   \<and> count_dynamic (replicate 2001 sample_dynamic) = 2001
   \<and> fst (FindAllFBPTRecords
        (Inr \<lparr>bytes = table_image 72044 (replicate 2001 sample_dynamic), offset = 0\<rparr>) 0) = 2000"
proof -
  let ?rs1 = "replicate 2000 sample_dynamic"
  let ?mem = "\<lparr>bytes = table_image 72044 (replicate 2001 sample_dynamic), offset = 0\<rparr>"
  have split: "replicate 2001 sample_dynamic = ?rs1 @ [sample_dynamic]"
    using replicate_add [of 2000 1 sample_dynamic] by simp
  have lay: "bytes ?mem = [] @ table_image 72044 (?rs1 @ [sample_dynamic]) @ []"
    by (simp only: split [symmetric]) simp
  have wf: "list_all wf_record ?rs1"
    by (simp add: sample_dynamic_facts list_all_replicate)
  have fit: "length ([] :: byte list) + 8 + declared_total ?rs1 < 2 ^ 63"
    by (simp add: declared_total_replicate sample_dynamic_facts)
  have le: "declared_total ?rs1 \<le> unat ((72044 :: uint32) - 8)"
    by (simp add: declared_total_replicate sample_dynamic_facts)
  have cap: "count_dynamic (butlast ?rs1) < 2000"
    by (simp add: butlast_replicate_same count_dynamic_replicate sample_dynamic_facts)
  have stop: "count_dynamic ?rs1 = 2000 \<or> declared_total ?rs1 = unat ((72044 :: uint32) - 8)"
    by (simp add: count_dynamic_replicate sample_dynamic_facts)
  have "fst (FindAllFBPTRecords (Inr ?mem) 0) = 2000"
    using FindAllFBPTRecords_table(2) [OF lay wf fit le cap stop]
    by (simp add: count_dynamic_replicate sample_dynamic_facts)
  moreover have "list_all wf_record (replicate 2001 sample_dynamic)"
    by (simp add: sample_dynamic_facts list_all_replicate)
  moreover have "unat (72044 :: uint32) = 8 + declared_total (replicate 2001 sample_dynamic)"
    by (simp add: declared_total_replicate sample_dynamic_facts)
  moreover have "count_dynamic (replicate 2001 sample_dynamic) = 2001"
    by (simp add: count_dynamic_replicate sample_dynamic_facts)
  ultimately show ?thesis by (intro conjI)
qed

subsection \<open>C3: records that declare too small a length\<close>

text \<open>
  Claim C3. A record that declares a length below its minimum (4 for any record, 34
  for a dynamic-string record) should stop the scan with a structural error. The code
  has no such check and lets the \<open>uint8\<close> subtractions wrap. Here are two scans. A
  table of length 10 whose only record has type 0 and declares the length 2: the scan
  ends with no error. A table of length 41 whose only record is a dynamic-string record
  that declares the length 33, followed by 285 bytes: the scan decodes the record, with
  a description of 255 bytes, and ends with no error.
\<close>

theorem short_record_not_rejected:
  "FindAllFBPTRecords
     (Inr \<lparr>bytes = bytes_of_string ''FBPT'' @ [10, 0, 0, 0] @ [0, 0, 2, 0], offset = 0\<rparr>) 0
   = (0, replicate 2000 zero_MEASUREMENT_RECORD, None)
   \<and> FindAllFBPTRecords
        (Inr \<lparr>bytes = bytes_of_string ''FBPT'' @ [41, 0, 0, 0] @ [0x11, 0x10, 33, 0]
                       @ replicate 285 0x41, offset = 0\<rparr>) 0
   = (1, \<lparr>HookType = [], ProcessorIdentifier = 0x41414141,
          Timestamp = 0x4141414141414141, GUID = replicate 16 0x41,
          Description = replicate 255 (CHR ''A'')\<rparr>
         # replicate 1999 zero_MEASUREMENT_RECORD, None)"
  by (intro conjI; code_simp)

subsection \<open>C4: the cap of 2000 records\<close>

text \<open>
  Claim C4. For a well-formed table with 2001 or more dynamic-string records, laid out
  below offset \<open>2 ^ 63\<close>, the scan returns the count 2000, the first 2000 dynamic-string
  records decoded, in order, and no error.
\<close>

theorem scan_stops_at_cap:
  assumes "list_all wf_record rs"
    and "unat tablelength = 8 + declared_total rs"
    and "maxNumberOfFBPTPerfRecords < count_dynamic rs"
    and "length pre + unat tablelength < 2 ^ 63"
    and "bytes mem = pre @ table_image tablelength rs @ post"
  shows "FindAllFBPTRecords (Inr mem) (of_nat (length pre)) =
      (maxNumberOfFBPTPerfRecords, take maxNumberOfFBPTPerfRecords (decoded rs), None)"
proof -
  have sub: "unat (tablelength - 8) = declared_total rs"
    using assms(2) by (rule unat_tablelength_sub)
  have "2000 \<le> count_dynamic rs" and "0 < (2000 :: nat)"
    using assms(3) by (simp_all add: maxNumberOfFBPTPerfRecords_def)
  from split_at_dynamic [OF this] obtain rs1 rs2 where
    rs: "rs = rs1 @ rs2" and c: "count_dynamic rs1 = 2000"
    and cap: "count_dynamic (butlast rs1) < 2000"
    by blast
  have lay: "bytes mem = pre @ table_image tablelength (rs1 @ rs2) @ post"
    using assms(5) rs by simp
  have wf: "list_all wf_record rs1" using assms(1) rs by simp
  have le: "declared_total rs1 \<le> unat (tablelength - 8)" by (simp add: sub rs)
  have fit: "length pre + 8 + declared_total rs1 < 2 ^ 63"
    using assms(2,4) by (simp add: rs)
  have stop: "count_dynamic rs1 = 2000 \<or> declared_total rs1 = unat (tablelength - 8)"
    using c by simp
  have "take 2000 (decoded rs) = decoded rs1" by (simp add: rs c)
  with FindAllFBPTRecords_table(2) [OF lay wf fit le cap stop] show ?thesis
    by (simp add: c maxNumberOfFBPTPerfRecords_def)
qed

theorem scan_stops_at_cap_witness:
  "FindAllFBPTRecords
     (Inr \<lparr>bytes = table_image 72052 (sample_other # replicate 2001 sample_dynamic), offset = 0\<rparr>) 0 =
   (2000, replicate 2000 (decode_body (rbody sample_dynamic)), None)"
proof -
  let ?rs = "sample_other # replicate 2001 sample_dynamic"
  let ?mem = "\<lparr>bytes = table_image 72052 ?rs, offset = 0\<rparr>"
  have h1: "list_all wf_record ?rs"
    by (simp add: sample_dynamic_facts sample_other_facts list_all_replicate del: replicate.simps)
  have h2: "unat (72052 :: uint32) = 8 + declared_total ?rs"
    by (simp add: sample_dynamic_facts sample_other_facts declared_total_replicate
        del: replicate.simps)
  have h3: "maxNumberOfFBPTPerfRecords < count_dynamic ?rs"
    by (simp add: sample_dynamic_facts sample_other_facts count_dynamic_replicate
        maxNumberOfFBPTPerfRecords_def del: replicate.simps)
  have h4: "length ([] :: byte list) + unat (72052 :: uint32) < 2 ^ 63" by simp
  have h5: "bytes ?mem = [] @ table_image 72052 ?rs @ []" by simp
  from scan_stops_at_cap [OF h1 h2 h3 h4 h5] show ?thesis
    by (simp add: decoded_replicate sample_dynamic_facts sample_other_facts
        maxNumberOfFBPTPerfRecords_def del: replicate.simps)
qed

subsection \<open>C5: a table length below 8\<close>

text \<open>
  Claim C5. A table that declares a length of at most 8 should give no pass of the loop
  and an empty result without error. The code does so for the length 8 only: for a
  smaller length the bound \<open>tablelength - 8\<close> wraps in \<open>uint32\<close>. Here is the scan of a
  source whose table declares the length 4 and is followed by one dynamic-string
  record: the loop runs, decodes the record, and fails at the end of the source.
\<close>

theorem table_length_below_header:
  "FindAllFBPTRecords
     (Inr \<lparr>bytes = bytes_of_string ''FBPT'' @ [4, 0, 0, 0] @ record_bytes sample_dynamic,
           offset = 0\<rparr>) 0
   = (1, [], Some EOF)"
  by code_simp

subsection \<open>C6: the loop terminates\<close>

text \<open>
  Claim C6. For every byte source, table length and state at loop entry the loop
  terminates (\<open>scan_loop\<close> is a total function by its termination proof): it ends with
  an error, or normally in the state after its last pass, and then \<open>tableBytesRead\<close> has
  reached the table length minus 8 or \<open>index\<close> has reached 2000. Every pass reads a
  4-byte header, so the number of passes is at most a quarter of the bytes that lie
  after the cursor, whatever the table declares.
\<close>

theorem scan_loop_terminates:
  "((\<exists>i err. scan_loop tablelength s = Inl (i, err))
      \<or> (\<exists>s'. scan_loop tablelength s = Inr s' \<and> s' = last (s # scan_passes tablelength s)
            \<and> (tablelength - 8 \<le> tableBytesRead s' \<or> maxNumberOfFBPTPerfRecords \<le> index s')))
   \<and> 4 * length (scan_passes tablelength s) \<le> length (bytes (memFile s)) - offset (memFile s)"
proof -
  have "(\<exists>i err. scan_loop tablelength s = Inl (i, err))
      \<or> (\<exists>s'. scan_loop tablelength s = Inr s' \<and> s' = last (s # scan_passes tablelength s)
            \<and> (tablelength - 8 \<le> tableBytesRead s' \<or> maxNumberOfFBPTPerfRecords \<le> index s'))"
  proof (cases "scan_loop tablelength s")
    case (Inl p)
    then show ?thesis by (cases p) simp
  next
    case (Inr s')
    from scan_loop_stops [OF Inr] scan_loop_last [OF Inr] Inr show ?thesis
      by (auto simp: scan_cond_def EFI_ACPI_5_0_FBPT_HEADER_SIZE_def not_less)
  qed
  with scan_passes_bound [of tablelength s] show ?thesis by simp
qed

text \<open>
  On the source of zero bytes each pass moves the cursor by 256 bytes and adds nothing
  to \<open>tableBytesRead\<close>; the loop ends with \<open>EOF\<close> after 3 passes.
\<close>

theorem scan_loop_terminates_witness:
  "scan_loop 1000 (scan_init zero_source) = Inl (0, EOF)
   \<and> length (scan_passes 1000 (scan_init zero_source)) = 3
   \<and> 4 * length (scan_passes 1000 (scan_init zero_source)) \<le> 600"
proof -
  from scan_loop_terminates [of 1000 "scan_init zero_source"]
  have "4 * length (scan_passes 1000 (scan_init zero_source))
      \<le> length (bytes (memFile (scan_init zero_source))) - offset (memFile (scan_init zero_source))"
    by (rule conjunct2)
  then have "4 * length (scan_passes 1000 (scan_init zero_source)) \<le> 600"
    by (simp add: scan_init_def zero_source_def)
  with zero_source_result show ?thesis by simp
qed

subsection \<open>C7: the signature check\<close>

text \<open>
  Claim C7. Take a byte source that holds 4 bytes at the table base address. If they
  differ from the ASCII literal \<open>FBPT\<close>, \<open>verifyFBPTSignature\<close> fails with an error
  whose message ends with the 4 bytes observed, and \<open>FindAllFBPTRecords\<close> returns zero
  records (count 0, no slice) with that error. If they equal \<open>FBPT\<close> and the next 4 bytes
  are there, the validation succeeds and returns these 4 bytes read as a little-endian
  32-bit length, with the cursor 8 bytes past the base address.
\<close>

theorem verifyFBPTSignature_magic:
  assumes "0 \<le> sint FBPTAddr"
    and "nat (sint FBPTAddr) + 4 \<le> length (bytes mem)"
  shows "(take 4 (drop (nat (sint FBPTAddr)) (bytes mem)) \<noteq> bytes_of_string FBPTStructureSig \<longrightarrow>
           verifyFBPTSignature mem FBPTAddr =
             Inl (ErrorString (''FBPT structure signature check failed. Expected: FBPT, Got: ''
                    @ string_of_bytes (take 4 (drop (nat (sint FBPTAddr)) (bytes mem)))))
           \<and> FindAllFBPTRecords (Inr mem) FBPTAddr =
             (0, [], Some (ErrorString
                (''FBPT structure signature check failed. Expected: FBPT, Got: ''
                    @ string_of_bytes (take 4 (drop (nat (sint FBPTAddr)) (bytes mem)))))))
       \<and> (take 4 (drop (nat (sint FBPTAddr)) (bytes mem)) = bytes_of_string FBPTStructureSig
           \<and> nat (sint FBPTAddr) + 8 \<le> length (bytes mem) \<longrightarrow>
           verifyFBPTSignature mem FBPTAddr =
             Inr (Uint32 (take 4 (drop (nat (sint FBPTAddr) + 4) (bytes mem))),
                  mem\<lparr>offset := nat (sint FBPTAddr) + 8\<rparr>))"
proof -
  let ?base = "nat (sint FBPTAddr)"
  let ?m0 = "mem\<lparr>offset := ?base\<rparr>"
  have k: "Seek mem (sint FBPTAddr) SeekStart = Inr ?m0"
    using assms(1) by (rule Seek_start_ok)
  have r1: "ReadFull ?m0 4 = Inr (take 4 (drop ?base (bytes mem)), mem\<lparr>offset := ?base + 4\<rparr>)"
    using assms(2) by (subst ReadFull_ok) simp_all
  have r2: "?base + 8 \<le> length (bytes mem) \<Longrightarrow>
      ReadFull (mem\<lparr>offset := ?base + 4\<rparr>) 4 =
        Inr (take 4 (drop (?base + 4) (bytes mem)), mem\<lparr>offset := ?base + 8\<rparr>)"
    by (subst ReadFull_ok) simp_all
  show ?thesis
    using r2
    by (simp add: verifyFBPTSignature_def FindAllFBPTRecords_def k r1 string_of_bytes_eq_iff)
qed

theorem verifyFBPTSignature_magic_witness:
  "FindAllFBPTRecords (Inr \<lparr>bytes = bytes_of_string ''XXXX'' @ [0x2C, 0x01, 0, 0], offset = 0\<rparr>) 0 =
     (0, [], Some (ErrorString
        ''FBPT structure signature check failed. Expected: FBPT, Got: XXXX''))
   \<and> verifyFBPTSignature \<lparr>bytes = bytes_of_string ''FBPT'' @ [0x2C, 0x01, 0, 0], offset = 0\<rparr> 0 =
     Inr (300, \<lparr>bytes = bytes_of_string ''FBPT'' @ [0x2C, 0x01, 0, 0], offset = 8\<rparr>)"
proof -
  have a: "0 \<le> sint (0 :: uint64)" by simp
  have b1: "nat (sint (0 :: uint64)) + 4
      \<le> length (bytes \<lparr>bytes = bytes_of_string ''XXXX'' @ [0x2C, 0x01, 0, 0], offset = 0\<rparr>)"
    by simp
  have b2: "nat (sint (0 :: uint64)) + 4
      \<le> length (bytes \<lparr>bytes = bytes_of_string ''FBPT'' @ [0x2C, 0x01, 0, 0], offset = 0\<rparr>)"
    by simp
  have ne: "bytes_of_string ''XXXX'' \<noteq> bytes_of_string FBPTStructureSig"
    by (simp add: bytes_of_string_def FBPTStructureSig_def)
  have len: "Uint32 [0x2C, 0x01, 0, 0] = 300" by simp
  show ?thesis
    using verifyFBPTSignature_magic [OF a b1] verifyFBPTSignature_magic [OF a b2] ne len
    by (simp add: string_of_bytes_of_string FBPTStructureSig_def)
qed

subsection \<open>C8: the hook-type table\<close>

text \<open>
  Claim C8. The lookup of a hook-type code is total and never fails: code \<open>0x01\<close> gives
  \<open>MODULE_START_ID\<close>, every code of the table gives its name, every code that is not in
  the table (such as \<open>0xFF\<close>) gives the empty label, and the decoder of a dynamic-string
  record succeeds on any code whenever the bytes of the record can be read, with the
  label of the code in \<open>HookType\<close>.
\<close>

theorem eventTypeMap_total:
  "eventTypeMap_index 0x01 = ''MODULE_START_ID''
   \<and> (\<forall>(c, name) \<in> set eventTypeTable. eventTypeMap_index c = name)
   \<and> (\<forall>c. c \<notin> fst ` set eventTypeTable \<longrightarrow> eventTypeMap_index c = [])
   \<and> eventTypeMap_index 0xFF = []
   \<and> (offset mem + 30 + unat (l - 34) \<le> length (bytes mem) \<longrightarrow>
        (\<exists>rec mem'. readFirmwarePerformanceDataTableDynamicRecord mem l = Inr (rec, mem')
           \<and> HookType rec = eventTypeMap_index (Uint16 (take 2 (drop (offset mem) (bytes mem))))))"
proof -
  have "eventTypeMap_index 0x01 = ''MODULE_START_ID''"
    by (rule eventTypeMap_index_in) (simp add: eventTypeTable_def)
  moreover have "\<forall>(c, name) \<in> set eventTypeTable. eventTypeMap_index c = name"
    using eventTypeMap_index_in by blast
  moreover have "\<forall>c. c \<notin> fst ` set eventTypeTable \<longrightarrow> eventTypeMap_index c = []"
    using eventTypeMap_index_notin by blast
  moreover have "eventTypeMap_index 0xFF = []"
    by (rule eventTypeMap_index_notin) (simp add: eventTypeTable_def)
  moreover have "offset mem + 30 + unat (l - 34) \<le> length (bytes mem) \<longrightarrow>
        (\<exists>rec mem'. readFirmwarePerformanceDataTableDynamicRecord mem l = Inr (rec, mem')
           \<and> HookType rec = eventTypeMap_index (Uint16 (take 2 (drop (offset mem) (bytes mem)))))"
    by (simp add: readDynamicRecord_ok)
  ultimately show ?thesis by blast
qed

theorem eventTypeMap_total_witness:
  "eventTypeMap_index 0x51 = ''PERF_CROSSMODULE_END_ID'' \<and> eventTypeMap_index 0x0B = []
   \<and> (\<exists>rec mem'. readFirmwarePerformanceDataTableDynamicRecord
          \<lparr>bytes = [0xFF, 0x00] @ replicate 28 0, offset = 0\<rparr> 34 = Inr (rec, mem')
        \<and> HookType rec = eventTypeMap_index 0xFF)"
proof -
  let ?mem = "\<lparr>bytes = [0xFF, 0x00] @ replicate 28 (0 :: byte), offset = 0\<rparr>"
  note t = eventTypeMap_total [of ?mem 34]
  have a: "(0x51, ''PERF_CROSSMODULE_END_ID'') \<in> set eventTypeTable"
    by (simp add: eventTypeTable_def)
  have b: "(0x0B :: uint16) \<notin> fst ` set eventTypeTable"
    by (simp add: eventTypeTable_def)
  have c: "offset ?mem + 30 + unat ((34 :: byte) - 34) \<le> length (bytes ?mem)"
    by simp
  have d: "Uint16 (take 2 (drop (offset ?mem) (bytes ?mem))) = 0xFF" by simp
  from t have t2: "\<forall>(c, name) \<in> set eventTypeTable. eventTypeMap_index c = name"
    by (rule conjunct2 [THEN conjunct1])
  from t have t3: "\<forall>c. c \<notin> fst ` set eventTypeTable \<longrightarrow> eventTypeMap_index c = []"
    by (rule conjunct2 [THEN conjunct2, THEN conjunct1])
  from t have t5: "offset ?mem + 30 + unat ((34 :: byte) - 34) \<le> length (bytes ?mem) \<longrightarrow>
      (\<exists>rec mem'. readFirmwarePerformanceDataTableDynamicRecord ?mem 34 = Inr (rec, mem')
        \<and> HookType rec = eventTypeMap_index (Uint16 (take 2 (drop (offset ?mem) (bytes ?mem)))))"
    by (rule conjunct2 [THEN conjunct2, THEN conjunct2, THEN conjunct2])
  from bspec [OF t2 a] have "eventTypeMap_index 0x51 = ''PERF_CROSSMODULE_END_ID''" by simp
  moreover from t3 [rule_format, OF b] have "eventTypeMap_index 0x0B = []" .
  moreover from t5 [rule_format, OF c] have "\<exists>rec mem'.
      readFirmwarePerformanceDataTableDynamicRecord ?mem 34 = Inr (rec, mem')
      \<and> HookType rec = eventTypeMap_index 0xFF"
    unfolding d .
  ultimately show ?thesis by (intro conjI)
qed

subsection \<open>C9: encoding a record and decoding it\<close>

text \<open>
  Claim C9. Take a record whose hook-type label is the label of a code of the table,
  with a GUID of 16 bytes, and its encoding: the declared length is 34 plus the length
  of the description. Decoding the encoding with this declared length gives back the
  record: the same label, processor identifier, timestamp, GUID (hence the same GUID
  string, whatever the rendering \<open>guidString\<close> of the 16 bytes) and description.
\<close>

theorem encode_decode_roundtrip:
  assumes "eventTypeMap code = Some (HookType r)"
    and "length (GUID r) = 16"
    and "encode_record code r = Some (l, body)"
    and "bytes mem = pre @ body @ post"
    and "offset mem = length pre"
  shows "unat l = 34 + length (Description r)
    \<and> (\<exists>rec mem'.
      readFirmwarePerformanceDataTableDynamicRecord mem l = Inr (rec, mem')
      \<and> rec = r
      \<and> HookType rec = HookType r
      \<and> ProcessorIdentifier rec = ProcessorIdentifier r
      \<and> Timestamp rec = Timestamp r
      \<and> guidString (GUID rec) = guidString (GUID r)
      \<and> Description rec = Description r
      \<and> offset mem' = length pre + 30 + length (Description r))"
proof -
  from assms(3) have fits: "34 + length (Description r) < 256"
    and l: "l = of_nat (34 + length (Description r))"
    and body: "body =
      PutUint16 code @ PutUint32 (ProcessorIdentifier r) @ PutUint64 (Timestamp r)
        @ GUID r @ bytes_of_string (Description r)"
    by (simp_all add: encode_record_def split: if_splits)
  have "unat (of_nat (34 + length (Description r)) :: byte)
      = (34 + length (Description r)) mod 2 ^ LENGTH(8)"
    by (rule unat_of_nat)
  then have u: "unat l = 34 + length (Description r)"
    using fits unfolding l by simp
  then have w: "unat (l - 34) = length (Description r)"
    by (simp add: unat_sub word_le_nat_alt)
  have "offset mem + 30 + unat (l - 34) \<le> length (bytes mem)"
    using assms(2) by (simp add: w assms(4,5) body length_PutUint16 length_PutUint64)
  from readDynamicRecord_ok [OF this]
  have "readFirmwarePerformanceDataTableDynamicRecord mem l =
      Inr (r, mem\<lparr>offset := length pre + 30 + length (Description r)\<rparr>)"
    using assms(1,2)
    by (simp add: w assms(4,5) body eventTypeMap_index_def length_PutUint16 length_PutUint64
        Uint16_PutUint16 [where rest = "[]", simplified]
        Uint32_PutUint32 [where rest = "[]", simplified]
        Uint64_PutUint64 [where rest = "[]", simplified] string_of_bytes_of_string)
  with u show ?thesis by simp
qed

theorem encode_decode_roundtrip_witness:
  "(\<exists>body mem'. encode_record 1 sample_measurement = Some (36, body)
        \<and> readFirmwarePerformanceDataTableDynamicRecord \<lparr>bytes = body, offset = 0\<rparr> 36
            = Inr (sample_measurement, mem')
        \<and> offset mem' = 32)"
proof -
  obtain body where e: "encode_record 1 sample_measurement = Some (36, body)"
    by (simp add: encode_record_def sample_measurement_def)
  let ?mem = "\<lparr>bytes = body, offset = 0\<rparr>"
  have h1: "eventTypeMap 1 = Some (HookType sample_measurement)"
    by (simp add: eventTypeMap_def eventTypeTable_def sample_measurement_def)
  have h2: "length (GUID sample_measurement) = 16"
    by (simp add: sample_measurement_def)
  have h4: "bytes ?mem = [] @ body @ []" by simp
  have h5: "offset ?mem = length ([] :: byte list)" by simp
  from encode_decode_roundtrip [OF h1 h2 e h4 h5, of "\<lambda>g. g"]
  have "\<exists>mem'. readFirmwarePerformanceDataTableDynamicRecord ?mem 36
          = Inr (sample_measurement, mem')
        \<and> offset mem' = 32"
    by (auto simp: sample_measurement_def)
  with e show ?thesis by blast
qed

subsection \<open>C10: the slice of a successful scan\<close>

text \<open>
  Claim C10. On every successful scan the slice returned has exactly 2000 entries, the
  count returned is the number of dynamic-string records decoded and is at most 2000,
  and every entry at a position from the count on is the zero record.
\<close>

theorem FindAllFBPTRecords_slice:
  assumes "FindAllFBPTRecords dev FBPTAddr = (n, recs, None)"
  shows "length recs = maxNumberOfFBPTPerfRecords
    \<and> n = decoded_count dev FBPTAddr
    \<and> n \<le> maxNumberOfFBPTPerfRecords
    \<and> (\<forall>i. n \<le> i \<and> i < maxNumberOfFBPTPerfRecords \<longrightarrow> recs ! i = zero_MEASUREMENT_RECORD)"
proof -
  from assms obtain f tablelength f1 s' where
    "dev = Inr f" and "verifyFBPTSignature f FBPTAddr = Inr (tablelength, f1)"
    and loop: "scan_loop tablelength (scan_init f1) = Inr s'"
    and n: "n = index s'" and recs: "recs = measurementRecords s'"
    by (rule FindAllFBPTRecords_success)
  from scan_loop_slice_inv [OF loop slice_inv_init] have inv: "slice_inv s'" .
  have "\<forall>i. n \<le> i \<and> i < maxNumberOfFBPTPerfRecords \<longrightarrow> recs ! i = zero_MEASUREMENT_RECORD"
  proof (intro allI impI)
    fix i assume "n \<le> i \<and> i < maxNumberOfFBPTPerfRecords"
    then have i: "n \<le> i" "i < length recs"
      using inv by (simp_all add: slice_inv_def recs)
    then have "recs ! i = drop n recs ! (i - n)" by simp
    moreover have "drop n recs ! (i - n) \<in> set (drop n recs)"
      using i by (intro nth_mem) simp
    ultimately show "recs ! i = zero_MEASUREMENT_RECORD"
      using inv by (simp add: slice_inv_def list_all_iff n recs)
  qed
  moreover have "n = decoded_count dev FBPTAddr"
    using FindAllFBPTRecords_count [of dev FBPTAddr] assms by simp
  ultimately show ?thesis
    using inv by (simp add: slice_inv_def n recs)
qed

theorem FindAllFBPTRecords_slice_witness:
  "fst (FindAllFBPTRecords (Inr single_record_source) 0) = 1
   \<and> decoded_count (Inr single_record_source) 0 = 1
   \<and> length (fst (snd (FindAllFBPTRecords (Inr single_record_source) 0))) = 2000
   \<and> fst (snd (FindAllFBPTRecords (Inr single_record_source) 0)) ! 1 = zero_MEASUREMENT_RECORD
   \<and> fst (snd (FindAllFBPTRecords (Inr single_record_source) 0)) ! 1999 = zero_MEASUREMENT_RECORD"
proof -
  note t = FindAllFBPTRecords_slice [OF single_record_source_result]
  from t have z: "\<forall>i. 1 \<le> i \<and> i < maxNumberOfFBPTPerfRecords \<longrightarrow>
      (decode_body (rbody sample_dynamic) # replicate 1999 zero_MEASUREMENT_RECORD) ! i
        = zero_MEASUREMENT_RECORD"
    by (rule conjunct2 [THEN conjunct2, THEN conjunct2])
  have "(decode_body (rbody sample_dynamic) # replicate 1999 zero_MEASUREMENT_RECORD) ! 1
      = zero_MEASUREMENT_RECORD"
    by (rule z [rule_format]) (simp add: maxNumberOfFBPTPerfRecords_def)
  moreover have "(decode_body (rbody sample_dynamic) # replicate 1999 zero_MEASUREMENT_RECORD) ! 1999
      = zero_MEASUREMENT_RECORD"
    by (rule z [rule_format]) (simp add: maxNumberOfFBPTPerfRecords_def)
  moreover from t have "length (decode_body (rbody sample_dynamic)
      # replicate 1999 zero_MEASUREMENT_RECORD) = maxNumberOfFBPTPerfRecords"
    by (rule conjunct1)
  moreover from t have "1 = decoded_count (Inr single_record_source) 0"
    by (rule conjunct2 [THEN conjunct1])
  ultimately show ?thesis
    by (simp add: single_record_source_result maxNumberOfFBPTPerfRecords_def
        del: replicate.simps)
qed

end
